theory Spec2Isabelle
  imports Main "HOL-Library.Word"
begin

section \<open>Collaborators of rpc.cc\<close>

text \<open>
  The file \<^verbatim>\<open>src/yb/rpc/rpc.cc\<close> implements \<^verbatim>\<open>RpcRetrier\<close> and \<^verbatim>\<open>Rpcs\<close>. The types it
  takes from headers that are not part of the sources (Status, MonoTime, the controller,
  the messenger, the command interface) are modelled here with just the operations rpc.cc
  calls on them.
\<close>

text \<open>
  Modelled from the spec: \<^verbatim>\<open>Status\<close> (yb/util/status.h is missing). The status kinds are
  those of the specification's taxonomy (OK, RemoteError, TimedOut, ServiceUnavailable,
  Aborted, IllegalState); \<open>OtherCode\<close> stands for every further kind.
\<close>

datatype Code = RemoteError | TimedOut | ServiceUnavailable | Aborted | IllegalState | OtherCode nat

datatype Status = OK | STATUS Code string

definition ok :: "Status \<Rightarrow> bool" where
  "ok s = (s = OK)"

definition has_code :: "Code \<Rightarrow> Status \<Rightarrow> bool" where
  "has_code c s = (case s of OK \<Rightarrow> False | STATUS c' msg \<Rightarrow> c' = c)"

definition IsRemoteError :: "Status \<Rightarrow> bool" where
  "IsRemoteError s = has_code RemoteError s"

definition IsTimedOut :: "Status \<Rightarrow> bool" where
  "IsTimedOut s = has_code TimedOut s"

definition IsServiceUnavailable :: "Status \<Rightarrow> bool" where
  "IsServiceUnavailable s = has_code ServiceUnavailable s"

text \<open>
  Modelled from the spec: \<^verbatim>\<open>MonoTime\<close> (yb/util/monotime.h is missing), an instant of the
  monotonic clock counted in milliseconds. The value 0 is the uninitialized instant
  (``no overall deadline''); \<open>ComesBefore\<close> is strict.
\<close>

type_synonym MonoTime = int

definition Initialized :: "MonoTime \<Rightarrow> bool" where
  "Initialized t = (t \<noteq> 0)"

definition ComesBefore :: "MonoTime \<Rightarrow> MonoTime \<Rightarrow> bool" where
  "ComesBefore t rhs = (t < rhs)"

text \<open>
  Modelled from the spec: the error payload of a remote error (rpc_header.proto is
  missing). \<open>code\<close> is an optional field: \<open>None\<close> when \<^verbatim>\<open>has_code()\<close> is false.
\<close>

datatype RpcErrorCodePB = ERROR_SERVER_TOO_BUSY | ERROR_OTHER nat

record ErrorStatusPB =
  code :: "RpcErrorCodePB option"

text \<open>
  Modelled from the spec: \<^verbatim>\<open>RpcController\<close>, as far as rpc.cc reads it: \<^verbatim>\<open>status()\<close>,
  \<^verbatim>\<open>error_response()\<close> (a null pointer is \<open>None\<close>) and \<^verbatim>\<open>Reset()\<close>.
\<close>

record RpcController =
  status :: Status
  error_response :: "ErrorStatusPB option"

definition Reset :: "RpcController \<Rightarrow> RpcController" where
  "Reset c = \<lparr>status = OK, error_response = None\<rparr>"

text \<open>
  Modelled from the spec: \<^verbatim>\<open>RpcCommand\<close>. Its virtual methods \<^verbatim>\<open>SendRpc\<close>, \<^verbatim>\<open>Finished\<close> and
  \<^verbatim>\<open>Abort\<close> are implemented by callers; a call of one of them is an entry of the list of
  calls an operation returns, in the order the calls are made. Their bodies are not part
  of rpc.cc: the operations below are those of rpc.cc itself, for commands whose methods
  return without calling back into the Retrier or the registry.
\<close>

record RpcCommand =
  cmd_ToString :: string
  cmd_deadline :: MonoTime

text \<open>
  Modelled from the spec: the task identifier of the messenger, with its sentinel
  \<^verbatim>\<open>kInvalidTaskId\<close>.
\<close>

datatype ScheduledTaskId = kInvalidTaskId | TaskId nat

datatype call =
    SendRpc RpcCommand
  | Finished RpcCommand Status
  | Abort RpcCommand
  | AbortOnReactor ScheduledTaskId

text \<open>
  Modelled from the spec: \<^verbatim>\<open>Messenger::ScheduleOnReactor\<close> (yb/rpc/messenger.cc is missing).
  It either accepts the closure \<^verbatim>\<open>DoRetry(rpc, _1)\<close> with its delay and returns a fresh task
  id, or refuses (the reactor is shutting down), returns \<^verbatim>\<open>kInvalidTaskId\<close> and keeps
  nothing. An entry of \<open>scheduled_tasks\<close> is a closure the reactor will invoke: the task
  id, the command bound into the closure and the delay in milliseconds.
\<close>

record Messenger =
  accepting :: bool
  next_task_id :: nat
  scheduled_tasks :: "(nat \<times> RpcCommand \<times> int) list"

definition ScheduleOnReactor ::
  "Messenger \<Rightarrow> RpcCommand \<Rightarrow> int \<Rightarrow> ScheduledTaskId \<times> Messenger" where
  "ScheduleOnReactor m rpc delay_ms =
     (if accepting m
      then (TaskId (next_task_id m),
            m\<lparr>next_task_id := Suc (next_task_id m),
              scheduled_tasks := scheduled_tasks m @ [(next_task_id m, rpc, delay_ms)]\<rparr>)
      else (kInvalidTaskId, m))"

text \<open>A failed \<^verbatim>\<open>CHECK\<close> ends the process.\<close>

datatype fatal = CHECK_failed string

section \<open>Flags\<close>

type_synonym int32 = "32 word"

record FLAGS =
  rpcs_shutdown_timeout_ms :: int
  rpcs_shutdown_extra_delay_ms :: int
  retryable_rpc_single_call_timeout_ms :: int
  min_backoff_ms_exponent :: int32
  max_backoff_ms_exponent :: int32

text \<open>The defaults of the \<^verbatim>\<open>DEFINE_\<close> lines; \<^verbatim>\<open>kTimeMultiplier\<close> comes from tsan_util.h.\<close>

definition default_FLAGS :: "int \<Rightarrow> FLAGS" where
  "default_FLAGS kTimeMultiplier =
     \<lparr>rpcs_shutdown_timeout_ms = 15000 * kTimeMultiplier,
      rpcs_shutdown_extra_delay_ms = 5000 * kTimeMultiplier,
      retryable_rpc_single_call_timeout_ms = 2500 * kTimeMultiplier,
      min_backoff_ms_exponent = 7,
      max_backoff_ms_exponent = 16\<rparr>"

section \<open>RpcRetrier\<close>

datatype RpcRetrierState = kIdle | kRunning | kScheduling | kWaiting | kFinished

datatype BackoffStrategy = kLinear | kExponential

text \<open>The members \<^verbatim>\<open>deadline_\<close>, \<^verbatim>\<open>controller_\<close>, ... without the trailing underscore.\<close>

record RpcRetrier =
  deadline :: MonoTime
  controller :: RpcController
  attempt_num :: int32
  last_error :: Status
  state :: RpcRetrierState
  task_id :: ScheduledTaskId

text \<open>
  The renderings rpc.cc obtains from code outside the file: \<^verbatim>\<open>Status::ToString\<close>,
  \<^verbatim>\<open>MonoTime::ToString\<close>, the names of the state enum, the task id under \<^verbatim>\<open>Format\<close> and
  the \<^verbatim>\<open>RpcCommand*\<close> argument under \<^verbatim>\<open>STATUS_FORMAT\<close>. They are parameters of the model.
\<close>

record Formatting =
  Status_ToString :: "Status \<Rightarrow> string"
  MonoTime_ToString :: "MonoTime \<Rightarrow> string"
  RpcRetrierState_ToString :: "RpcRetrierState \<Rightarrow> string"
  ScheduledTaskId_ToString :: "ScheduledTaskId \<Rightarrow> string"
  RpcCommandPtr_ToString :: "RpcCommand \<Rightarrow> string"

text \<open>
  \<^verbatim>\<open>std::atomic::compare_exchange_strong\<close> on \<^verbatim>\<open>state_\<close>: from the stored value, the
  expected value and the desired value to the result, the new stored value and the new
  content of \<^verbatim>\<open>expected_state\<close>.
\<close>

definition compare_exchange_strong ::
  "RpcRetrierState \<Rightarrow> RpcRetrierState \<Rightarrow> RpcRetrierState
     \<Rightarrow> bool \<times> RpcRetrierState \<times> RpcRetrierState" where
  "compare_exchange_strong stored expected desired =
     (if stored = expected then (True, desired, expected) else (False, stored, stored))"

text \<open>
  \<^verbatim>\<open>compare_exchange_weak\<close> may in addition fail although the stored value is the expected
  one; whether it does is an input.
\<close>

definition compare_exchange_weak ::
  "bool \<Rightarrow> RpcRetrierState \<Rightarrow> RpcRetrierState \<Rightarrow> RpcRetrierState
     \<Rightarrow> bool \<times> RpcRetrierState \<times> RpcRetrierState" where
  "compare_exchange_weak spurious stored expected desired =
     (if stored = expected \<and> \<not> spurious then (True, desired, expected)
      else (False, stored, stored))"

subsection \<open>DelayedRetry\<close>

text \<open>
  \<^verbatim>\<open>std::min\<close> on \<^verbatim>\<open>int\<close> compares signed values. \<^verbatim>\<open>1 << e\<close> is defined by C++ for
  \<open>0 \<le> e < 31\<close> only; the theorems about the delay stay within that range.
\<close>

definition std_min :: "int32 \<Rightarrow> int32 \<Rightarrow> int32" where
  "std_min a b = (if b <s a then b else a)"

definition shift_left_1 :: "int32 \<Rightarrow> int32" where
  "shift_left_1 e = push_bit (nat (sint e)) 1"

text \<open>
  The local \<^verbatim>\<open>num_ms\<close>, from the value \<open>n\<close> of \<^verbatim>\<open>attempt_num_\<close>; \<open>jitter\<close> is the value
  \<^verbatim>\<open>RandomUniformInt(0, 4)\<close> returned.
\<close>

definition num_ms :: "FLAGS \<Rightarrow> BackoffStrategy \<Rightarrow> int32 \<Rightarrow> int32 \<Rightarrow> int32" where
  "num_ms flags strategy n jitter =
     (if strategy = kExponential
      then shift_left_1
             (std_min (min_backoff_ms_exponent flags + n) (max_backoff_ms_exponent flags))
      else n)
     + jitter"

text \<open>
  The loop that takes \<^verbatim>\<open>kScheduling\<close>. \<^verbatim>\<open>expected_state\<close> is not set back to \<^verbatim>\<open>kIdle\<close>
  after a failed exchange, so the next exchange compares with the state just observed.
  The result is whether the state was taken, the stored state and \<^verbatim>\<open>expected_state\<close>.
\<close>

function DelayedRetry_acquire ::
  "RpcRetrierState \<Rightarrow> RpcRetrierState \<Rightarrow> bool \<times> RpcRetrierState \<times> RpcRetrierState" where
  "DelayedRetry_acquire stored expected_state =
     (let (exchanged, stored', expected_state') =
            compare_exchange_strong stored expected_state kScheduling
      in if exchanged then (True, stored', expected_state')
         else if expected_state' = kFinished then (False, stored', expected_state')
         else if expected_state' = kWaiting then (False, stored', expected_state')
         else DelayedRetry_acquire stored' expected_state')"
  by pat_completeness auto
termination
  apply (relation "measure (\<lambda>(stored, e). if stored = e then 0 else 1)")
   apply (auto simp: compare_exchange_strong_def split: if_splits)
  done

definition DelayedRetry ::
  "Formatting \<Rightarrow> FLAGS \<Rightarrow> int32 \<Rightarrow> RpcCommand \<Rightarrow> Status \<Rightarrow> BackoffStrategy
     \<Rightarrow> RpcRetrier \<times> Messenger \<Rightarrow> fatal + (Status \<times> RpcRetrier \<times> Messenger)" where
  "DelayedRetry fmt flags jitter rpc why_status strategy rm =
     (let (r, m) = rm;
          r1 = (if \<not> ok why_status \<and> (ok (last_error r) \<or> IsTimedOut (last_error r))
                then r\<lparr>last_error := why_status\<rparr> else r);
          delay = num_ms flags strategy (attempt_num r1) jitter;
          r2 = r1\<lparr>attempt_num := attempt_num r1 + 1\<rparr>;
          (acquired, stored, expected_state) = DelayedRetry_acquire (state r2) kIdle;
          r3 = r2\<lparr>state := stored\<rparr>
      in if \<not> acquired then
           (if expected_state = kFinished
            then Inr (STATUS IllegalState
                        (''Retry of finished command: '' @ RpcCommandPtr_ToString fmt rpc), r3, m)
            else Inr (STATUS IllegalState
                        (''Retry of already waiting command: '' @ RpcCommandPtr_ToString fmt rpc),
                      r3, m))
         else
           (let (tid, m') = ScheduleOnReactor m rpc (sint delay);
                r4 = r3\<lparr>task_id := tid\<rparr>
            in if task_id r4 = kInvalidTaskId then
                 (let (exchanged, stored', e) =
                        compare_exchange_strong (state r4) kScheduling kFinished
                  in if exchanged
                     then Inr (STATUS Aborted
                                 (''Failed to schedule: '' @ RpcCommandPtr_ToString fmt rpc),
                               r4\<lparr>state := stored'\<rparr>, m')
                     else Inl (CHECK_failed ''state_.compare_exchange_strong''))
               else
                 (let (exchanged, stored', e) =
                        compare_exchange_strong (state r4) kScheduling kWaiting
                  in if exchanged then Inr (OK, r4\<lparr>state := stored'\<rparr>, m')
                     else Inl (CHECK_failed ''state_.compare_exchange_strong''))))"

subsection \<open>HandleResponse\<close>

text \<open>
  \<open>out_status\<close> is the content of \<^verbatim>\<open>*out_status\<close> before the call; the second component
  of the result is its content afterwards.
\<close>

definition HandleResponse ::
  "Formatting \<Rightarrow> FLAGS \<Rightarrow> int32 \<Rightarrow> RpcCommand \<Rightarrow> Status \<Rightarrow> bool
     \<Rightarrow> RpcRetrier \<times> Messenger \<Rightarrow> fatal + (bool \<times> Status \<times> RpcRetrier \<times> Messenger)" where
  "HandleResponse fmt flags jitter rpc out_status retry_when_busy rm =
     (let (r, m) = rm;
          controller_status = status (controller r)
      in if IsRemoteError controller_status \<and> retry_when_busy
            \<and> (case error_response (controller r) of
                  None \<Rightarrow> False
                | Some err \<Rightarrow> code err = Some ERROR_SERVER_TOO_BUSY)
         then (case DelayedRetry fmt flags jitter rpc controller_status kExponential (r, m) of
                 Inl f \<Rightarrow> Inl f
               | Inr (st, r', m') \<Rightarrow>
                   if \<not> ok st then Inr (False, st, r', m') else Inr (True, out_status, r', m'))
         else Inr (False, controller_status, r, m))"

subsection \<open>DoRetry\<close>

text \<open>
  The busy wait of \<^verbatim>\<open>DoRetry\<close>, entered with the outcome of the first exchange. It
  leaves \<^verbatim>\<open>kScheduling\<close> only when another thread stores a new state; run on its own it
  does not return there, which is the value \<open>None\<close>.
\<close>

partial_function (option) DoRetry_loop ::
  "RpcRetrierState \<Rightarrow> bool \<Rightarrow> RpcRetrierState
     \<Rightarrow> (bool \<times> RpcRetrierState \<times> RpcRetrierState) option" where
  "DoRetry_loop stored run expected_state =
     (if \<not> run \<and> expected_state = kScheduling
      then (let (run', stored', expected_state') =
                  compare_exchange_strong stored kWaiting kRunning
            in if run' then Some (run', stored', expected_state')
               else DoRetry_loop stored' run' expected_state')
      else Some (run, stored, expected_state))"

declare DoRetry_loop.simps [code]

text \<open>\<open>now\<close> is the value of \<^verbatim>\<open>MonoTime::Now()\<close> read when the deadline is checked.\<close>

definition DoRetry ::
  "Formatting \<Rightarrow> MonoTime \<Rightarrow> RpcCommand \<Rightarrow> Status \<Rightarrow> RpcRetrier
     \<Rightarrow> (RpcRetrier \<times> call list) option" where
  "DoRetry fmt now rpc st r =
     (let (run0, stored0, expected0) = compare_exchange_strong (state r) kWaiting kRunning
      in case DoRetry_loop stored0 run0 expected0 of
           None \<Rightarrow> None
         | Some (run, stored, expected_state) \<Rightarrow>
             (let r1 = r\<lparr>state := stored, task_id := kInvalidTaskId\<rparr>
              in if \<not> run then
                   Some (r1, [Finished rpc
                                (STATUS Aborted
                                   (cmd_ToString rpc @ '' aborted: ''
                                      @ RpcRetrierState_ToString fmt expected_state))])
                 else
                   (let new_status =
                          (if ok st \<and> Initialized (deadline r1) \<and> ComesBefore (deadline r1) now
                           then STATUS TimedOut
                                  (cmd_ToString rpc @ '' passed its deadline ''
                                     @ MonoTime_ToString fmt (deadline r1) @ '' (now: ''
                                     @ MonoTime_ToString fmt now @ '')''
                                     @ (if \<not> ok (last_error r1)
                                        then '': '' @ Status_ToString fmt (last_error r1)
                                        else []))
                           else st);
                        (r2, calls) =
                          (if ok new_status
                           then (r1\<lparr>controller := Reset (controller r1)\<rparr>, [SendRpc rpc])
                           else (r1, [Finished rpc
                                        (if IsServiceUnavailable new_status
                                         then STATUS Aborted
                                                (''Aborted because of ''
                                                   @ Status_ToString fmt new_status)
                                         else new_status)]));
                        (exchanged, stored', e) =
                          compare_exchange_strong (state r2) kRunning kIdle
                    in Some (r2\<lparr>state := stored'\<rparr>, calls))))"

subsection \<open>The destructor and ToString\<close>

definition RpcRetrier_ToString :: "Formatting \<Rightarrow> RpcRetrier \<Rightarrow> string" where
  "RpcRetrier_ToString fmt r =
     ''{ task_id: '' @ ScheduledTaskId_ToString fmt (task_id r)
       @ '' state: '' @ RpcRetrierState_ToString fmt (state r)
       @ '' deadline: '' @ MonoTime_ToString fmt (deadline r) @ '' }''"

datatype log_entry = DFATAL string

text \<open>\<^verbatim>\<open>~RpcRetrier\<close>: what \<^verbatim>\<open>LOG_IF(DFATAL, ...)\<close> writes.\<close>

definition RpcRetrier_destroy :: "Formatting \<Rightarrow> RpcRetrier \<Rightarrow> log_entry list" where
  "RpcRetrier_destroy fmt r =
     (if kInvalidTaskId \<noteq> task_id r \<or> (kFinished \<noteq> state r \<and> kIdle \<noteq> state r)
      then [DFATAL (''Destroying RpcRetrier in invalid state: '' @ RpcRetrier_ToString fmt r)]
      else [])"

subsection \<open>Abort\<close>

text \<open>
  \<^verbatim>\<open>RpcRetrier::Abort\<close> sleeps between its reads of \<^verbatim>\<open>state_\<close> and \<^verbatim>\<open>task_id_\<close>, and
  its second loop ends only after the reactor thread has run the scheduled closure. What
  the reactor does during each sleep is an input: nothing, or one run of \<^verbatim>\<open>DoRetry\<close>. When
  the inputs are used up at a sleep, \<^verbatim>\<open>Abort\<close> has not returned (\<open>None\<close>).
\<close>

datatype sleep_event = Quiet | ReactorRuns MonoTime RpcCommand Status

definition during_sleep ::
  "Formatting \<Rightarrow> sleep_event \<Rightarrow> RpcRetrier \<Rightarrow> (RpcRetrier \<times> call list) option" where
  "during_sleep fmt ev r =
     (case ev of Quiet \<Rightarrow> Some (r, []) | ReactorRuns now rpc st \<Rightarrow> DoRetry fmt now rpc st r)"

text \<open>
  The first loop. \<open>spurious\<close> lists, exchange by exchange, whether the weak exchange fails
  spuriously (never, once the list is used up). The result holds the sleeps left over.
\<close>

function Abort_park ::
  "Formatting \<Rightarrow> bool list \<Rightarrow> sleep_event list \<Rightarrow> RpcRetrierState \<Rightarrow> RpcRetrier
     \<Rightarrow> (RpcRetrier \<times> call list \<times> sleep_event list) option" where
  "Abort_park fmt spurious sleeps expected_state r =
     (let (exchanged, stored, expected_state') =
            compare_exchange_weak (spurious \<noteq> [] \<and> hd spurious) (state r) expected_state kFinished;
          r1 = r\<lparr>state := stored\<rparr>
      in if exchanged then Some (r1, [], sleeps)
         else if expected_state' = kFinished then Some (r1, [], sleeps)
         else (case sleeps of
                 [] \<Rightarrow> None
               | ev # rest \<Rightarrow>
                   (case during_sleep fmt ev r1 of
                      None \<Rightarrow> None
                    | Some (r2, calls) \<Rightarrow>
                        (case Abort_park fmt (tl spurious) rest
                                (if expected_state' \<noteq> kWaiting then kIdle else expected_state') r2 of
                           None \<Rightarrow> None
                         | Some (r3, calls', rest') \<Rightarrow> Some (r3, calls @ calls', rest')))))"
  by pat_completeness auto
termination
  by (relation "measure (\<lambda>(fmt, spurious, sleeps, e, r). length sleeps)") auto

text \<open>The second loop.\<close>

function Abort_cancel ::
  "Formatting \<Rightarrow> sleep_event list \<Rightarrow> RpcRetrier \<Rightarrow> (RpcRetrier \<times> call list) option" where
  "Abort_cancel fmt sleeps r =
     (if task_id r = kInvalidTaskId then Some (r, [])
      else (case sleeps of
              [] \<Rightarrow> None
            | ev # rest \<Rightarrow>
                (case during_sleep fmt ev r of
                   None \<Rightarrow> None
                 | Some (r1, calls) \<Rightarrow>
                     (case Abort_cancel fmt rest r1 of
                        None \<Rightarrow> None
                      | Some (r2, calls') \<Rightarrow>
                          Some (r2, AbortOnReactor (task_id r) # calls @ calls')))))"
  by pat_completeness auto
termination
  by (relation "measure (\<lambda>(fmt, sleeps, r). length sleeps)") auto

declare Abort_park.simps [simp del] Abort_cancel.simps [simp del]

definition RpcRetrier_Abort ::
  "Formatting \<Rightarrow> bool list \<Rightarrow> sleep_event list \<Rightarrow> RpcRetrier
     \<Rightarrow> (RpcRetrier \<times> call list) option" where
  "RpcRetrier_Abort fmt spurious sleeps r =
     (case Abort_park fmt spurious sleeps kIdle r of
        None \<Rightarrow> None
      | Some (r1, calls, rest) \<Rightarrow>
          (case Abort_cancel fmt rest r1 of
             None \<Rightarrow> None
           | Some (r2, calls') \<Rightarrow> Some (r2, calls @ calls')))"

subsection \<open>Sequences of completed operations\<close>

text \<open>
  A Retrier is observed at quiescence between two operations: each operation of the list
  runs to its return before the next one starts.
\<close>

datatype operation =
    Op_HandleResponse int32 RpcCommand Status bool
  | Op_DelayedRetry int32 RpcCommand Status BackoffStrategy
  | Op_DoRetry MonoTime RpcCommand Status
  | Op_Abort "bool list" "sleep_event list"

definition run_op ::
  "Formatting \<Rightarrow> FLAGS \<Rightarrow> operation \<Rightarrow> RpcRetrier \<times> Messenger
     \<Rightarrow> (fatal + RpcRetrier \<times> Messenger) option" where
  "run_op fmt flags op rm =
     (case op of
        Op_HandleResponse jitter rpc out_status retry_when_busy \<Rightarrow>
          (case HandleResponse fmt flags jitter rpc out_status retry_when_busy rm of
             Inl f \<Rightarrow> Some (Inl f)
           | Inr (retried, out_status', r', m') \<Rightarrow> Some (Inr (r', m')))
      | Op_DelayedRetry jitter rpc why_status strategy \<Rightarrow>
          (case DelayedRetry fmt flags jitter rpc why_status strategy rm of
             Inl f \<Rightarrow> Some (Inl f)
           | Inr (st, r', m') \<Rightarrow> Some (Inr (r', m')))
      | Op_DoRetry now rpc st \<Rightarrow>
          (case DoRetry fmt now rpc st (fst rm) of
             None \<Rightarrow> None
           | Some (r', calls) \<Rightarrow> Some (Inr (r', snd rm)))
      | Op_Abort spurious sleeps \<Rightarrow>
          (case RpcRetrier_Abort fmt spurious sleeps (fst rm) of
             None \<Rightarrow> None
           | Some (r', calls) \<Rightarrow> Some (Inr (r', snd rm))))"

fun run_ops ::
  "Formatting \<Rightarrow> FLAGS \<Rightarrow> operation list \<Rightarrow> RpcRetrier \<times> Messenger
     \<Rightarrow> (fatal + RpcRetrier \<times> Messenger) option" where
  "run_ops fmt flags [] rm = Some (Inr rm)"
| "run_ops fmt flags (op # ops) rm =
     (case run_op fmt flags op rm of
        None \<Rightarrow> None
      | Some (Inl f) \<Rightarrow> Some (Inl f)
      | Some (Inr rm') \<Rightarrow> run_ops fmt flags ops rm')"

section \<open>Rpcs\<close>

text \<open>
  \<^verbatim>\<open>calls_\<close> is a \<^verbatim>\<open>std::list\<close> of shared pointers and a \<^verbatim>\<open>Handle\<close> is an iterator of
  it. A list node is its identity (a number never used before, taken from \<open>next_node\<close>)
  and its element; a null pointer is \<open>None\<close>. \<open>End\<close> is \<^verbatim>\<open>calls_.end()\<close>.
\<close>

datatype Handle = End | Node nat

record Rpcs =
  calls :: "(nat \<times> RpcCommand option) list"
  shutdown :: bool
  next_node :: nat

definition InvalidHandle :: "Rpcs \<Rightarrow> Handle" where
  "InvalidHandle rs = End"

definition Register :: "RpcCommand \<Rightarrow> Rpcs \<Rightarrow> Handle \<times> Rpcs \<times> call list" where
  "Register c rs =
     (if shutdown rs then (InvalidHandle rs, rs, [Abort c])
      else (Node (next_node rs),
            rs\<lparr>calls := calls rs @ [(next_node rs, Some c)], next_node := Suc (next_node rs)\<rparr>,
            []))"

definition Prepare :: "Rpcs \<Rightarrow> Handle \<times> Rpcs" where
  "Prepare rs =
     (if shutdown rs then (InvalidHandle rs, rs)
      else (Node (next_node rs),
            rs\<lparr>calls := calls rs @ [(next_node rs, None)], next_node := Suc (next_node rs)\<rparr>))"

text \<open>\<^verbatim>\<open>**handle\<close>: the element of the node the handle points to.\<close>

definition deref :: "Rpcs \<Rightarrow> Handle \<Rightarrow> RpcCommand option" where
  "deref rs h = (case h of End \<Rightarrow> None | Node n \<Rightarrow> (case map_of (calls rs) n of None \<Rightarrow> None | Some c \<Rightarrow> c))"

definition erase :: "Handle \<Rightarrow> Rpcs \<Rightarrow> Rpcs" where
  "erase h rs = (case h of End \<Rightarrow> rs | Node n \<Rightarrow> rs\<lparr>calls := filter (\<lambda>(k, c). k \<noteq> n) (calls rs)\<rparr>)"

text \<open>\<^verbatim>\<open>Unregister\<close>: the command returned, the new content of \<^verbatim>\<open>*handle\<close>, the registry.\<close>

definition Unregister :: "Handle \<Rightarrow> Rpcs \<Rightarrow> RpcCommand option \<times> Handle \<times> Rpcs" where
  "Unregister h rs =
     (if h = End then (None, h, rs)
      else (deref rs h, End, erase h rs))"

text \<open>The loop of \<^verbatim>\<open>DoRequestAbortAll\<close> over the copied calls.\<close>

fun abort_calls ::
  "int \<Rightarrow> RpcCommand option list \<Rightarrow> MonoTime \<Rightarrow> fatal + (MonoTime \<times> call list)" where
  "abort_calls single_call_extra_delay [] dl = Inr (dl, [])"
| "abort_calls single_call_extra_delay (c # cs) dl =
     (case c of
        None \<Rightarrow> Inl (CHECK_failed ''call'')
      | Some cmd \<Rightarrow>
          (case abort_calls single_call_extra_delay cs
                  (max dl (cmd_deadline cmd + single_call_extra_delay)) of
             Inl f \<Rightarrow> Inl f
           | Inr (dl', cs') \<Rightarrow> Inr (dl', Abort cmd # cs')))"

text \<open>\<open>now\<close> is the value of \<^verbatim>\<open>MonoTime::Now()\<close> read after the lock is released.\<close>

definition DoRequestAbortAll ::
  "FLAGS \<Rightarrow> MonoTime \<Rightarrow> bool \<Rightarrow> Rpcs \<Rightarrow> fatal + (MonoTime \<times> Rpcs \<times> call list)" where
  "DoRequestAbortAll flags now request_shutdown rs =
     (let (rs', copied) =
            (if \<not> shutdown rs then (rs\<lparr>shutdown := request_shutdown\<rparr>, map snd (calls rs))
             else (rs, []))
      in case abort_calls (rpcs_shutdown_extra_delay_ms flags) copied
                (now + rpcs_shutdown_timeout_ms flags) of
           Inl f \<Rightarrow> Inl f
         | Inr (dl, cs) \<Rightarrow> Inr (dl, rs', cs))"

text \<open>
  \<^verbatim>\<open>Shutdown\<close> waits on \<^verbatim>\<open>cond_\<close>. While it is blocked other threads unregister calls;
  \<^verbatim>\<open>wait_until\<close> returns \<^verbatim>\<open>cv_status::timeout\<close> when it wakes at or after the deadline.
  A wake-up is the handles unregistered meanwhile and the instant of waking; when the
  wake-ups are used up \<^verbatim>\<open>Shutdown\<close> is still blocked (\<open>None\<close>).
\<close>

datatype cv_status = no_timeout | timeout

record wakeup =
  unregistered :: "Handle list"
  woke_at :: MonoTime

definition wait_until :: "MonoTime \<Rightarrow> wakeup \<Rightarrow> cv_status" where
  "wait_until dl w = (if woke_at w < dl then no_timeout else timeout)"

fun Shutdown_wait :: "MonoTime \<Rightarrow> wakeup list \<Rightarrow> Rpcs \<Rightarrow> Rpcs option" where
  "Shutdown_wait dl [] rs = (if calls rs = [] then Some rs else None)"
| "Shutdown_wait dl (w # ws) rs =
     (if calls rs = [] then Some rs
      else (let rs' = fold erase (unregistered w) rs
            in if wait_until dl w = timeout then Some rs' else Shutdown_wait dl ws rs'))"

text \<open>
  \<open>meanwhile\<close> are the handles unregistered between the return of \<^verbatim>\<open>DoRequestAbortAll\<close>
  and the moment \<^verbatim>\<open>Shutdown\<close> takes the lock.
\<close>

definition Shutdown ::
  "FLAGS \<Rightarrow> MonoTime \<Rightarrow> Handle list \<Rightarrow> wakeup list \<Rightarrow> Rpcs
     \<Rightarrow> (fatal + Rpcs \<times> call list) option" where
  "Shutdown flags now meanwhile wakeups rs =
     (case DoRequestAbortAll flags now True rs of
        Inl f \<Rightarrow> Some (Inl f)
      | Inr (dl, rs1, cs) \<Rightarrow>
          (case Shutdown_wait dl wakeups (fold erase meanwhile rs1) of
             None \<Rightarrow> None
           | Some rs2 \<Rightarrow>
               if calls rs2 = [] then Some (Inr (rs2, cs))
               else Some (Inl (CHECK_failed ''calls_.empty()''))))"

section \<open>The formulas of the specification and sample inputs\<close>

text \<open>
  The backoff delay as the specification words it, over the integers:
  \<open>1 << min(MinExp + n, MaxExp)\<close> plus the jitter for the exponential strategy,
  \<open>n\<close> plus the jitter for the linear one.
\<close>

definition spec_delay_ms :: "int \<Rightarrow> int \<Rightarrow> BackoffStrategy \<Rightarrow> int \<Rightarrow> int \<Rightarrow> int" where
  "spec_delay_ms MinExp MaxExp strategy n j =
     (case strategy of
        kExponential \<Rightarrow> 2 ^ nat (min (MinExp + n) MaxExp) + j
      | kLinear \<Rightarrow> n + j)"

text \<open>The controller reports a remote error whose error response carries SERVER_TOO_BUSY.\<close>

abbreviation too_busy :: "RpcController \<Rightarrow> bool" where
  "too_busy c \<equiv>
     IsRemoteError (status c)
     \<and> (\<exists>err. error_response c = Some err \<and> code err = Some ERROR_SERVER_TOO_BUSY)"

text \<open>
  The invariant on the task id: a Retrier that is idle or finished holds no task.
\<close>

definition task_id_invariant :: "RpcRetrier \<Rightarrow> bool" where
  "task_id_invariant r = (state r = kIdle \<or> state r = kFinished \<longrightarrow> task_id r = kInvalidTaskId)"

text \<open>Every node of \<^verbatim>\<open>calls_\<close> was allocated before \<open>next_node\<close>.\<close>

definition nodes_fresh :: "Rpcs \<Rightarrow> bool" where
  "nodes_fresh rs = list_all (\<lambda>(k, c). k < next_node rs) (calls rs)"

text \<open>The commands of the non-null entries of \<^verbatim>\<open>calls_\<close>, in order.\<close>

definition live_commands :: "Rpcs \<Rightarrow> RpcCommand list" where
  "live_commands rs = concat (map (\<lambda>(k, c). case c of None \<Rightarrow> [] | Some cmd \<Rightarrow> [cmd]) (calls rs))"

text \<open>
  The drain deadline of a shutdown: the latest of \<open>now + rpcs_shutdown_timeout_ms\<close> and,
  for each command, its deadline plus \<open>rpcs_shutdown_extra_delay_ms\<close>.
\<close>

definition drain_deadline :: "FLAGS \<Rightarrow> MonoTime \<Rightarrow> RpcCommand list \<Rightarrow> MonoTime" where
  "drain_deadline flags now cmds =
     Max (insert (now + rpcs_shutdown_timeout_ms flags)
            ((\<lambda>c. cmd_deadline c + rpcs_shutdown_extra_delay_ms flags) ` set cmds))"

text \<open>
  The registry after the first \<open>k\<close> wake-ups of a waiting \<^verbatim>\<open>Shutdown\<close>, and whether its
  wait is over then: \<^verbatim>\<open>calls_\<close> is empty, or the \<open>k\<close>-th wake-up came at or after the
  deadline.
\<close>

definition after_wakeups :: "nat \<Rightarrow> wakeup list \<Rightarrow> Rpcs \<Rightarrow> Rpcs" where
  "after_wakeups k ws rs = fold (\<lambda>w. fold erase (unregistered w)) (take k ws) rs"

definition wait_over :: "MonoTime \<Rightarrow> wakeup list \<Rightarrow> Rpcs \<Rightarrow> nat \<Rightarrow> bool" where
  "wait_over dl ws rs k =
     (calls (after_wakeups k ws rs) = [] \<or> (0 < k \<and> dl \<le> woke_at (ws ! (k - 1))))"

text \<open>Inputs for the closed instances below.\<close>

definition fmt0 :: Formatting where
  "fmt0 =
     \<lparr>Status_ToString = (\<lambda>s. case s of OK \<Rightarrow> ''OK'' | STATUS c msg \<Rightarrow> msg),
      MonoTime_ToString = (\<lambda>t. if t = 100 then ''100'' else ''300''),
      RpcRetrierState_ToString =
        (\<lambda>s. case s of kIdle \<Rightarrow> ''kIdle'' | kRunning \<Rightarrow> ''kRunning''
              | kScheduling \<Rightarrow> ''kScheduling'' | kWaiting \<Rightarrow> ''kWaiting''
              | kFinished \<Rightarrow> ''kFinished''),
      ScheduledTaskId_ToString = (\<lambda>t. case t of kInvalidTaskId \<Rightarrow> ''-1'' | TaskId n \<Rightarrow> ''task''),
      RpcCommandPtr_ToString = cmd_ToString\<rparr>"

definition cmd0 :: RpcCommand where
  "cmd0 = \<lparr>cmd_ToString = ''cmd'', cmd_deadline = 100\<rparr>"

definition busy :: RpcController where
  "busy = \<lparr>status = STATUS RemoteError ''busy'',
            error_response = Some \<lparr>code = Some ERROR_SERVER_TOO_BUSY\<rparr>\<rparr>"

definition r0 :: RpcRetrier where
  "r0 = \<lparr>deadline = 100, controller = busy, attempt_num = 1, last_error = OK,
          state = kIdle, task_id = kInvalidTaskId\<rparr>"

definition m0 :: Messenger where
  "m0 = \<lparr>accepting = True, next_task_id = 0, scheduled_tasks = []\<rparr>"

definition ops0 :: "operation list" where
  "ops0 =
     [Op_DelayedRetry 3 cmd0 (STATUS RemoteError ''busy'') kExponential,
      Op_Abort [] [Quiet, ReactorRuns 300 cmd0 (STATUS Aborted ''Task aborted'')]]"

text \<open>
  The shutdown scenario of the specification: two commands with deadlines 100 ms and
  300 ms after \<open>now = 1000\<close>, a shutdown timeout of 50 ms and an extra delay of 10 ms.
\<close>

definition flags4 :: FLAGS where
  "flags4 = (default_FLAGS 1)\<lparr>rpcs_shutdown_timeout_ms := 50, rpcs_shutdown_extra_delay_ms := 10\<rparr>"

definition cmdA :: RpcCommand where
  "cmdA = \<lparr>cmd_ToString = ''A'', cmd_deadline = 1100\<rparr>"

definition cmdB :: RpcCommand where
  "cmdB = \<lparr>cmd_ToString = ''B'', cmd_deadline = 1300\<rparr>"

definition rs4 :: Rpcs where
  "rs4 = \<lparr>calls = [(0, Some cmdA), (1, Some cmdB)], shutdown = False, next_node = 2\<rparr>"

section \<open>Lemmas on DelayedRetry\<close>

lemma DelayedRetry_acquire_Idle:
  "DelayedRetry_acquire s kIdle =
     (if s = kFinished \<or> s = kWaiting then (False, s, s) else (True, kScheduling, s))"
  by (cases s) (simp_all add: compare_exchange_strong_def)

lemma DelayedRetry_cases:
  "DelayedRetry fmt flags jitter rpc why_status strategy (r, m) =
     (let r2 = r\<lparr>last_error :=
                    (if \<not> ok why_status \<and> (ok (last_error r) \<or> IsTimedOut (last_error r))
                     then why_status else last_error r),
                  attempt_num := attempt_num r + 1\<rparr>
      in if state r = kFinished then
           Inr (STATUS IllegalState
                  (''Retry of finished command: '' @ RpcCommandPtr_ToString fmt rpc), r2, m)
         else if state r = kWaiting then
           Inr (STATUS IllegalState
                  (''Retry of already waiting command: '' @ RpcCommandPtr_ToString fmt rpc), r2, m)
         else if accepting m then
           Inr (OK, r2\<lparr>state := kWaiting, task_id := TaskId (next_task_id m)\<rparr>,
                m\<lparr>next_task_id := Suc (next_task_id m),
                  scheduled_tasks := scheduled_tasks m
                    @ [(next_task_id m, rpc, sint (num_ms flags strategy (attempt_num r) jitter))]\<rparr>)
         else
           Inr (STATUS Aborted (''Failed to schedule: '' @ RpcCommandPtr_ToString fmt rpc),
                r2\<lparr>state := kFinished, task_id := kInvalidTaskId\<rparr>, m))"
  by (simp add: DelayedRetry_def DelayedRetry_acquire_Idle ScheduleOnReactor_def
      compare_exchange_strong_def Let_def)

lemma sint_add_in_range:
  fixes a b :: int32
  assumes "- (2 ^ 31) \<le> sint a + sint b" and "sint a + sint b < 2 ^ 31"
  shows "sint (a + b) = sint a + sint b"
  using assms by (simp add: sint_word_add signed_take_bit_int_eq_self)

lemma sint_std_min: "sint (std_min a b) = min (sint a) (sint b)"
  by (simp add: std_min_def word_sless_alt min_def)

lemma sint_shift_left_1:
  assumes "0 \<le> sint e" and "sint e \<le> 30"
  shows "sint (shift_left_1 e) = 2 ^ nat (sint e)"
proof -
  define k where "k = nat (sint e)"
  have k: "k \<le> 30" using assms by (simp add: k_def)
  have "(2::int) ^ k \<le> 2 ^ 30" using k by (intro power_increasing) simp_all
  then have lt: "(2::int) ^ k < 2 ^ 31" by simp
  have "sint (push_bit k 1 :: int32) = sint (word_of_int (2 ^ k) :: int32)"
    by (simp add: push_bit_eq_mult)
  also have "\<dots> = signed_take_bit (LENGTH(32) - 1) ((2::int) ^ k)"
    by (rule sint_sbintrunc')
  also have "\<dots> = 2 ^ k"
  proof (rule signed_take_bit_int_eq_self)
    show "- (2 ^ (LENGTH(32) - 1)) \<le> (2::int) ^ k"
      by (rule order_trans [of _ 0]) simp_all
    show "(2::int) ^ k < 2 ^ (LENGTH(32) - 1)"
      using lt by simp
  qed
  finally show ?thesis by (simp add: shift_left_1_def k_def)
qed

lemma num_ms_value:
  assumes "0 \<le> sint jitter" and "sint jitter \<le> 4"
    and "strategy = kExponential \<Longrightarrow>
           - (2 ^ 31) \<le> sint (min_backoff_ms_exponent flags) + sint n
           \<and> sint (min_backoff_ms_exponent flags) + sint n < 2 ^ 31
           \<and> 0 \<le> min (sint (min_backoff_ms_exponent flags) + sint n) (sint (max_backoff_ms_exponent flags))
           \<and> min (sint (min_backoff_ms_exponent flags) + sint n) (sint (max_backoff_ms_exponent flags)) \<le> 30"
    and "strategy = kLinear \<Longrightarrow> sint n + 4 < 2 ^ 31"
  shows "sint (num_ms flags strategy n jitter) =
           (case strategy of
              kExponential \<Rightarrow>
                2 ^ nat (min (sint (min_backoff_ms_exponent flags) + sint n)
                             (sint (max_backoff_ms_exponent flags)))
            | kLinear \<Rightarrow> sint n)
           + sint jitter"
proof (cases strategy)
  case kLinear
  have "- (2 ^ 31) \<le> sint n" using sint_ge [of n] by simp
  with assms kLinear have "sint (n + jitter) = sint n + sint jitter"
    by (intro sint_add_in_range) simp_all
  with kLinear show ?thesis by (simp add: num_ms_def)
next
  case kExponential
  let ?e = "std_min (min_backoff_ms_exponent flags + n) (max_backoff_ms_exponent flags)"
  let ?m = "min (sint (min_backoff_ms_exponent flags) + sint n) (sint (max_backoff_ms_exponent flags))"
  from assms(3) [OF kExponential]
  have sum: "sint (min_backoff_ms_exponent flags + n) = sint (min_backoff_ms_exponent flags) + sint n"
    and lo: "0 \<le> ?m" and hi: "?m \<le> 30"
    by (simp_all add: sint_add_in_range)
  have e: "sint ?e = ?m" by (simp add: sint_std_min sum)
  have sh: "sint (shift_left_1 ?e) = 2 ^ nat ?m"
    using sint_shift_left_1 [of ?e] lo hi e by simp
  have "(2::int) ^ nat ?m \<le> 2 ^ 30" using hi lo by (intro power_increasing) simp_all
  then have up: "sint (shift_left_1 ?e) + sint jitter < 2 ^ 31"
    using assms(2) sh by simp
  have "(0::int) \<le> sint (shift_left_1 ?e) + sint jitter"
    using assms(1) sh by simp
  then have "- (2 ^ 31) \<le> sint (shift_left_1 ?e) + sint jitter"
    by (rule order_trans [rotated]) simp
  with up have "sint (shift_left_1 ?e + jitter) = sint (shift_left_1 ?e) + sint jitter"
    by (intro sint_add_in_range)
  with kExponential sh show ?thesis by (simp add: num_ms_def)
qed



lemma DelayedRetry_returns:
  "\<exists>st r' m'. DelayedRetry fmt flags jitter rpc why_status strategy (r, m) = Inr (st, r', m')"
  by (simp add: DelayedRetry_cases Let_def)

section \<open>Claims on the Retrier\<close>

text \<open>
  Claim C1, as amended. \<^verbatim>\<open>HandleResponse\<close> always returns. It returns true exactly when
  the controller's status is a remote error whose error response carries SERVER_TOO_BUSY,
  the caller passed \<^verbatim>\<open>retry_when_busy\<close>, and \<^verbatim>\<open>DelayedRetry\<close> with the exponential strategy
  returned OK; then \<^verbatim>\<open>*out_status\<close> is untouched. When the first two conditions hold and
  \<^verbatim>\<open>DelayedRetry\<close> fails, it returns false with \<^verbatim>\<open>*out_status\<close> set to the status
  \<^verbatim>\<open>DelayedRetry\<close> returned. In every remaining case (in particular SERVER_TOO_BUSY without
  \<^verbatim>\<open>retry_when_busy\<close>) it returns false with \<^verbatim>\<open>*out_status\<close> set to the controller status,
  and neither the Retrier nor the messenger changes.
\<close>

theorem HandleResponse_retry:
  "\<exists>retried out_status' r' m'.
     HandleResponse fmt flags jitter rpc out_status retry_when_busy (r, m) =
       Inr (retried, out_status', r', m')
     \<and> (retried \<longleftrightarrow>
          too_busy (controller r) \<and> retry_when_busy
          \<and> DelayedRetry fmt flags jitter rpc (status (controller r)) kExponential (r, m) =
              Inr (OK, r', m'))
     \<and> (if retried then out_status' = out_status
         else if too_busy (controller r) \<and> retry_when_busy
         then out_status' \<noteq> OK
              \<and> DelayedRetry fmt flags jitter rpc (status (controller r)) kExponential (r, m) =
                  Inr (out_status', r', m')
         else out_status' = status (controller r) \<and> r' = r \<and> m' = m)"
proof -
  obtain st r1 m1 where
    d: "DelayedRetry fmt flags jitter rpc (status (controller r)) kExponential (r, m) =
          Inr (st, r1, m1)"
    using DelayedRetry_returns by blast
  have h: "HandleResponse fmt flags jitter rpc out_status retry_when_busy (r, m) =
          (if too_busy (controller r) \<and> retry_when_busy
           then (if st = OK then Inr (True, out_status, r1, m1) else Inr (False, st, r1, m1))
           else Inr (False, status (controller r), r, m))"
    by (cases "error_response (controller r)")
       (simp_all add: HandleResponse_def d ok_def Let_def)
  show ?thesis
  proof (cases "too_busy (controller r) \<and> retry_when_busy")
    case False
    with h show ?thesis by auto
  next
    case True
    with h d show ?thesis by (cases "st = OK") auto
  qed
qed

theorem HandleResponse_retry_witness:
  "HandleResponse fmt0 (default_FLAGS 1) 3 cmd0 OK True (r0, m0) =
     Inr (True, OK,
          r0\<lparr>attempt_num := 2, last_error := STATUS RemoteError ''busy'', state := kWaiting,
             task_id := TaskId 0\<rparr>,
          m0\<lparr>next_task_id := 1, scheduled_tasks := [(0, cmd0, 259)]\<rparr>)"
proof -
  let ?R = "r0\<lparr>attempt_num := 2, last_error := STATUS RemoteError ''busy'', state := kWaiting,
             task_id := TaskId 0\<rparr>"
  let ?M = "m0\<lparr>next_task_id := 1, scheduled_tasks := [(0, cmd0, 259)]\<rparr>"
  have d: "DelayedRetry fmt0 (default_FLAGS 1) 3 cmd0 (status (controller r0)) kExponential (r0, m0) =
     Inr (OK, ?R, ?M)"
    by (simp add: DelayedRetry_cases Let_def r0_def m0_def busy_def ok_def num_ms_def
        shift_left_1_def std_min_def default_FLAGS_def word_sless_alt)
  have b: "too_busy (controller r0)"
    by (simp add: r0_def busy_def IsRemoteError_def has_code_def)
  from HandleResponse_retry [of fmt0 "default_FLAGS 1" 3 cmd0 OK True r0 m0]
  obtain retried out' r' m' where
    h: "HandleResponse fmt0 (default_FLAGS 1) 3 cmd0 OK True (r0, m0) = Inr (retried, out', r', m')"
    and iff: "retried \<longleftrightarrow>
          too_busy (controller r0) \<and> True
          \<and> DelayedRetry fmt0 (default_FLAGS 1) 3 cmd0 (status (controller r0)) kExponential (r0, m0) =
              Inr (OK, r', m')"
    and out: "if retried then out' = OK
         else if too_busy (controller r0) \<and> True
         then out' \<noteq> OK
              \<and> DelayedRetry fmt0 (default_FLAGS 1) 3 cmd0 (status (controller r0)) kExponential (r0, m0) =
                  Inr (out', r', m')
         else out' = status (controller r0) \<and> r' = r0 \<and> m' = m0"
    by blast
  have retried: retried
  proof (rule ccontr)
    assume "\<not> retried"
    with out b have "out' \<noteq> OK" and
      "DelayedRetry fmt0 (default_FLAGS 1) 3 cmd0 (status (controller r0)) kExponential (r0, m0) =
         Inr (out', r', m')"
      by simp_all
    with d show False by simp
  qed
  with iff d have "r' = ?R" "m' = ?M" by simp_all
  moreover from retried out have "out' = OK" by simp
  ultimately show ?thesis using h retried by simp
qed

text \<open>
  Claim C1 as stated fails: with a busy response, \<^verbatim>\<open>retry_when_busy\<close> and a messenger that
  refuses the task, \<^verbatim>\<open>HandleResponse\<close> returns false and \<^verbatim>\<open>*out_status\<close> is the Aborted
  status of \<^verbatim>\<open>DelayedRetry\<close>, not the controller status.
\<close>

theorem HandleResponse_refused_status:
  "HandleResponse fmt0 (default_FLAGS 1) 3 cmd0 OK True (r0, m0\<lparr>accepting := False\<rparr>) =
     Inr (False, STATUS Aborted ''Failed to schedule: cmd'',
          r0\<lparr>attempt_num := 2, last_error := STATUS RemoteError ''busy'', state := kFinished\<rparr>,
          m0\<lparr>accepting := False\<rparr>)
   \<and> STATUS Aborted ''Failed to schedule: cmd'' \<noteq> status (controller r0)"
  by (simp add: HandleResponse_def DelayedRetry_cases Let_def r0_def m0_def busy_def ok_def
      IsRemoteError_def has_code_def fmt0_def cmd0_def)

text \<open>
  Claim C2. With a jitter \<open>j\<close> in \<open>[0, 4]\<close> and an attempt counter \<open>n\<close> for which the
  \<^verbatim>\<open>int\<close> arithmetic of C++ is defined (the sum \<open>MinExp + n\<close> fits 32 bits and the shift
  count lies in \<open>[0, 30]\<close>; \<open>n + 4\<close> fits for the linear strategy), the delay in
  milliseconds is \<open>(1 << min(MinExp + n, MaxExp)) + j\<close> for the exponential strategy and
  \<open>n + j\<close> for the linear one; the default exponents are 7 and 16. \<^verbatim>\<open>DelayedRetry\<close> always
  returns, with the attempt counter incremented, and when it returns OK the messenger
  holds one more task, scheduled with that delay.
\<close>

theorem DelayedRetry_delay:
  assumes "0 \<le> sint jitter" and "sint jitter \<le> 4"
    and "strategy = kExponential \<Longrightarrow>
           - (2 ^ 31) \<le> sint (min_backoff_ms_exponent flags) + sint (attempt_num r)
           \<and> sint (min_backoff_ms_exponent flags) + sint (attempt_num r) < 2 ^ 31
           \<and> 0 \<le> min (sint (min_backoff_ms_exponent flags) + sint (attempt_num r))
                     (sint (max_backoff_ms_exponent flags))
           \<and> min (sint (min_backoff_ms_exponent flags) + sint (attempt_num r))
                 (sint (max_backoff_ms_exponent flags)) \<le> 30"
    and "strategy = kLinear \<Longrightarrow> sint (attempt_num r) + 4 < 2 ^ 31"
  shows "min_backoff_ms_exponent (default_FLAGS k) = 7
         \<and> max_backoff_ms_exponent (default_FLAGS k) = 16
         \<and> sint (num_ms flags strategy (attempt_num r) jitter) =
             spec_delay_ms (sint (min_backoff_ms_exponent flags))
               (sint (max_backoff_ms_exponent flags)) strategy (sint (attempt_num r))
               (sint jitter)
         \<and> (\<exists>st r' m'.
               DelayedRetry fmt flags jitter rpc why_status strategy (r, m) = Inr (st, r', m')
               \<and> attempt_num r' = attempt_num r + 1
               \<and> scheduled_tasks m' =
                   (if st = OK
                    then scheduled_tasks m
                           @ [(next_task_id m, rpc,
                               spec_delay_ms (sint (min_backoff_ms_exponent flags))
                                 (sint (max_backoff_ms_exponent flags)) strategy
                                 (sint (attempt_num r)) (sint jitter))]
                    else scheduled_tasks m))"
proof -
  have delay:
    "sint (num_ms flags strategy (attempt_num r) jitter) =
       spec_delay_ms (sint (min_backoff_ms_exponent flags))
         (sint (max_backoff_ms_exponent flags)) strategy (sint (attempt_num r)) (sint jitter)"
    using num_ms_value [where strategy = strategy and flags = flags and n = "attempt_num r"
        and jitter = jitter] assms
    by (cases strategy) (simp_all add: spec_delay_ms_def)
  have flags: "min_backoff_ms_exponent (default_FLAGS k) = 7"
    "max_backoff_ms_exponent (default_FLAGS k) = 16"
    by (simp_all add: default_FLAGS_def)
  have ex: "\<exists>st r' m'.
          DelayedRetry fmt flags jitter rpc why_status strategy (r, m) = Inr (st, r', m')
          \<and> attempt_num r' = attempt_num r + 1
          \<and> scheduled_tasks m' =
              (if st = OK
               then scheduled_tasks m
                      @ [(next_task_id m, rpc,
                          spec_delay_ms (sint (min_backoff_ms_exponent flags))
                            (sint (max_backoff_ms_exponent flags)) strategy
                            (sint (attempt_num r)) (sint jitter))]
               else scheduled_tasks m)"
    unfolding delay [symmetric] by (simp add: DelayedRetry_cases Let_def)
  show ?thesis
    apply (intro conjI)
       apply (rule flags(1))
      apply (rule flags(2))
     apply (rule delay)
    apply (rule ex)
    done
qed

theorem DelayedRetry_delay_witness:
  "(0::int) \<le> sint (3 :: int32) \<and> sint (3 :: int32) \<le> 4
   \<and> sint (num_ms (default_FLAGS 1) kExponential (attempt_num r0) 3) = 2 ^ 8 + 3
   \<and> (\<exists>st r' m'.
         DelayedRetry fmt0 (default_FLAGS 1) 3 cmd0 OK kExponential (r0, m0) = Inr (st, r', m')
         \<and> attempt_num r' = 2
         \<and> scheduled_tasks m' = [(0, cmd0, 259)])"
proof -
  have f: "min_backoff_ms_exponent (default_FLAGS 1) = 7"
    "max_backoff_ms_exponent (default_FLAGS 1) = 16"
    by (simp_all add: default_FLAGS_def)
  have n: "attempt_num r0 = 1" "state r0 = kIdle" by (simp_all add: r0_def)
  have m: "scheduled_tasks m0 = []" "next_task_id m0 = 0" "accepting m0"
    by (simp_all add: m0_def)
  have j: "(0::int) \<le> sint (3 :: int32)" "sint (3 :: int32) \<le> 4" by simp_all
  have "sint (num_ms (default_FLAGS 1) kExponential (attempt_num r0) 3) =
          spec_delay_ms (sint (min_backoff_ms_exponent (default_FLAGS 1)))
            (sint (max_backoff_ms_exponent (default_FLAGS 1))) kExponential
            (sint (attempt_num r0)) (sint (3 :: int32))
        \<and> (\<exists>st r' m'.
              DelayedRetry fmt0 (default_FLAGS 1) 3 cmd0 OK kExponential (r0, m0) =
                Inr (st, r', m')
              \<and> attempt_num r' = attempt_num r0 + 1
              \<and> scheduled_tasks m' =
                  (if st = OK
                   then scheduled_tasks m0
                          @ [(next_task_id m0, cmd0,
                              spec_delay_ms (sint (min_backoff_ms_exponent (default_FLAGS 1)))
                                (sint (max_backoff_ms_exponent (default_FLAGS 1))) kExponential
                                (sint (attempt_num r0)) (sint (3 :: int32)))]
                   else scheduled_tasks m0))"
    using DelayedRetry_delay [where strategy = kExponential and flags = "default_FLAGS 1"
        and r = r0 and jitter = 3 and k = 1 and fmt = fmt0 and rpc = cmd0 and why_status = OK
        and m = m0]
    by (simp add: f n)
  then obtain st r' m' where
    d: "sint (num_ms (default_FLAGS 1) kExponential (attempt_num r0) 3) = 2 ^ 8 + 3"
    and eq: "DelayedRetry fmt0 (default_FLAGS 1) 3 cmd0 OK kExponential (r0, m0) = Inr (st, r', m')"
    and a: "attempt_num r' = 2"
    and t: "scheduled_tasks m' = (if st = OK then [(0, cmd0, 259)] else [])"
    by (auto simp add: f n m spec_delay_ms_def)
  have "st = OK" using eq by (simp add: DelayedRetry_cases Let_def n m)
  with d eq a t j show ?thesis by auto
qed

text \<open>
  Claim C4, as amended. On a Retrier whose state is \<^verbatim>\<open>kFinished\<close>, \<^verbatim>\<open>DelayedRetry\<close>
  returns IllegalState with the message ``Retry of finished command: '' followed by the
  command; on one whose state is \<^verbatim>\<open>kWaiting\<close>, IllegalState with ``Retry of already
  waiting command: '' followed by the command. In both cases the state, the task id, the
  deadline, the controller and the messenger are unchanged, while the attempt counter has
  been incremented and \<^verbatim>\<open>last_error_\<close> has been updated under its overwrite rule.
\<close>

theorem DelayedRetry_illegal_state:
  assumes "state r = kFinished \<or> state r = kWaiting"
  shows "DelayedRetry fmt flags jitter rpc why_status strategy (r, m) =
           Inr (STATUS IllegalState
                  ((if state r = kFinished then ''Retry of finished command: ''
                    else ''Retry of already waiting command: '')
                   @ RpcCommandPtr_ToString fmt rpc),
                r\<lparr>last_error :=
                    (if \<not> ok why_status \<and> (ok (last_error r) \<or> IsTimedOut (last_error r))
                     then why_status else last_error r),
                  attempt_num := attempt_num r + 1\<rparr>,
                m)"
  using assms by (auto simp add: DelayedRetry_cases Let_def)

theorem DelayedRetry_illegal_state_witness:
  "state (r0\<lparr>state := kWaiting, task_id := TaskId 7\<rparr>) = kWaiting
   \<and> DelayedRetry fmt0 (default_FLAGS 1) 0 cmd0 OK kLinear
       (r0\<lparr>state := kWaiting, task_id := TaskId 7\<rparr>, m0) =
     Inr (STATUS IllegalState ''Retry of already waiting command: cmd'',
          r0\<lparr>state := kWaiting, task_id := TaskId 7, attempt_num := 2\<rparr>, m0)"
  using DelayedRetry_illegal_state
    [of "r0\<lparr>state := kWaiting, task_id := TaskId 7\<rparr>" fmt0 "default_FLAGS 1" 0 cmd0 OK kLinear m0]
  by (simp add: ok_def r0_def fmt0_def cmd0_def)

text \<open>
  Claim C4 as stated fails: after a retry of a finished command with a non-OK reason the
  message is not ``retry of finished command'' and the Retrier is not the one before the
  call (attempt counter 2 instead of 1, \<^verbatim>\<open>last_error_\<close> overwritten).
\<close>

theorem DelayedRetry_finished_changes_retrier:
  "DelayedRetry fmt0 (default_FLAGS 1) 0 cmd0 (STATUS RemoteError ''busy'') kLinear
     (r0\<lparr>state := kFinished\<rparr>, m0) =
   Inr (STATUS IllegalState ''Retry of finished command: cmd'',
        r0\<lparr>state := kFinished, last_error := STATUS RemoteError ''busy'', attempt_num := 2\<rparr>,
        m0)
   \<and> STATUS IllegalState ''Retry of finished command: cmd''
       \<noteq> STATUS IllegalState ''retry of finished command''
   \<and> r0\<lparr>state := kFinished, last_error := STATUS RemoteError ''busy'', attempt_num := 2\<rparr>
       \<noteq> r0\<lparr>state := kFinished\<rparr>"
  by (simp add: DelayedRetry_cases Let_def ok_def r0_def fmt0_def cmd0_def)

text \<open>
  Claim C5. \<^verbatim>\<open>DelayedRetry\<close> always returns, and afterwards \<^verbatim>\<open>last_error_\<close> is
  \<^verbatim>\<open>why_status\<close> when \<^verbatim>\<open>why_status\<close> is not OK and the prior \<^verbatim>\<open>last_error_\<close> is OK or
  TimedOut; otherwise (an OK \<^verbatim>\<open>why_status\<close>, or a prior error that is not a timeout) it is
  the prior \<^verbatim>\<open>last_error_\<close>.
\<close>

theorem DelayedRetry_last_error:
  "\<exists>st r' m'.
     DelayedRetry fmt flags jitter rpc why_status strategy (r, m) = Inr (st, r', m')
     \<and> last_error r' =
         (if \<not> ok why_status \<and> (ok (last_error r) \<or> IsTimedOut (last_error r))
          then why_status else last_error r)"
  by (simp add: DelayedRetry_cases Let_def)

theorem DelayedRetry_last_error_witness:
  "\<exists>st r' m'.
     DelayedRetry fmt0 (default_FLAGS 1) 2 cmd0 (STATUS RemoteError ''busy'') kLinear
       (r0\<lparr>last_error := STATUS TimedOut ''late''\<rparr>, m0) = Inr (st, r', m')
     \<and> last_error r' = STATUS RemoteError ''busy''"
  using DelayedRetry_last_error
    [of fmt0 "default_FLAGS 1" 2 cmd0 "STATUS RemoteError ''busy''" kLinear
        "r0\<lparr>last_error := STATUS TimedOut ''late''\<rparr>" m0]
  by (simp add: ok_def IsTimedOut_def has_code_def)

text \<open>
  Claim C6. When the messenger refuses the task (\<^verbatim>\<open>ScheduleOnReactor\<close> returns
  \<^verbatim>\<open>kInvalidTaskId\<close>), \<^verbatim>\<open>DelayedRetry\<close>, having taken \<^verbatim>\<open>kScheduling\<close>, exchanges it for
  \<^verbatim>\<open>kFinished\<close> and returns Aborted; the task id is invalid and the messenger is as it
  was, so it holds no closure that would run \<^verbatim>\<open>DoRetry\<close> for this attempt.
\<close>

theorem DelayedRetry_schedule_refused:
  assumes "state r \<noteq> kFinished" and "state r \<noteq> kWaiting" and "\<not> accepting m"
  shows "fst (ScheduleOnReactor m rpc delay_ms) = kInvalidTaskId
         \<and> DelayedRetry_acquire (state r) kIdle = (True, kScheduling, state r)
         \<and> compare_exchange_strong kScheduling kScheduling kFinished = (True, kFinished, kScheduling)
         \<and> (\<exists>r'. DelayedRetry fmt flags jitter rpc why_status strategy (r, m) =
                   Inr (STATUS Aborted (''Failed to schedule: '' @ RpcCommandPtr_ToString fmt rpc),
                        r', m)
                 \<and> state r' = kFinished \<and> task_id r' = kInvalidTaskId)"
  using assms
  by (simp add: DelayedRetry_cases Let_def ScheduleOnReactor_def DelayedRetry_acquire_Idle
      compare_exchange_strong_def)

theorem DelayedRetry_schedule_refused_witness:
  "state r0 \<noteq> kFinished \<and> state r0 \<noteq> kWaiting \<and> \<not> accepting (m0\<lparr>accepting := False\<rparr>)
   \<and> DelayedRetry fmt0 (default_FLAGS 1) 3 cmd0 OK kLinear (r0, m0\<lparr>accepting := False\<rparr>) =
       Inr (STATUS Aborted ''Failed to schedule: cmd'',
            r0\<lparr>attempt_num := 2, state := kFinished\<rparr>, m0\<lparr>accepting := False\<rparr>)"
proof -
  have h: "state r0 \<noteq> kFinished" "state r0 \<noteq> kWaiting" "\<not> accepting (m0\<lparr>accepting := False\<rparr>)"
    by (simp_all add: r0_def)
  from DelayedRetry_schedule_refused [OF h, of cmd0 0 fmt0 "default_FLAGS 1" 3 OK kLinear]
  obtain r' where
    "DelayedRetry fmt0 (default_FLAGS 1) 3 cmd0 OK kLinear (r0, m0\<lparr>accepting := False\<rparr>) =
       Inr (STATUS Aborted (''Failed to schedule: '' @ RpcCommandPtr_ToString fmt0 cmd0),
            r', m0\<lparr>accepting := False\<rparr>)"
    by blast
  moreover have
    "DelayedRetry fmt0 (default_FLAGS 1) 3 cmd0 OK kLinear (r0, m0\<lparr>accepting := False\<rparr>) =
       Inr (STATUS Aborted ''Failed to schedule: cmd'',
            r0\<lparr>attempt_num := 2, state := kFinished\<rparr>, m0\<lparr>accepting := False\<rparr>)"
    by (simp add: DelayedRetry_cases Let_def r0_def ok_def fmt0_def cmd0_def)
  ultimately show ?thesis using h by simp
qed

section \<open>Lemmas on DoRetry\<close>

lemma DoRetry_loop_exit:
  "run \<or> e \<noteq> kScheduling \<Longrightarrow> DoRetry_loop s run e = Some (run, s, e)"
  by (subst DoRetry_loop.simps) auto

lemma DoRetry_loop_result:
  assumes "DoRetry_loop s run e = Some res"
  shows "s \<noteq> kScheduling \<or> run \<or> e \<noteq> kScheduling"
  by (rule DoRetry_loop.raw_induct
        [where P = "\<lambda>s run e res. s \<noteq> kScheduling \<or> run \<or> e \<noteq> kScheduling", OF _ assms])
     (force simp add: compare_exchange_strong_def split: if_splits)

lemma DoRetry_loop_spins: "DoRetry_loop kScheduling False kScheduling = None"
  using DoRetry_loop_result [of kScheduling False kScheduling]
  by (cases "DoRetry_loop kScheduling False kScheduling") auto

lemma DoRetry_cases:
  assumes "state r \<noteq> kScheduling"
  shows "DoRetry fmt now rpc st r =
     Some (if state r \<noteq> kWaiting then
             (r\<lparr>task_id := kInvalidTaskId\<rparr>,
              [Finished rpc
                 (STATUS Aborted
                    (cmd_ToString rpc @ '' aborted: '' @ RpcRetrierState_ToString fmt (state r)))])
           else if ok st \<and> Initialized (deadline r) \<and> ComesBefore (deadline r) now then
             (r\<lparr>state := kIdle, task_id := kInvalidTaskId\<rparr>,
              [Finished rpc
                 (STATUS TimedOut
                    (cmd_ToString rpc @ '' passed its deadline ''
                       @ MonoTime_ToString fmt (deadline r) @ '' (now: ''
                       @ MonoTime_ToString fmt now @ '')''
                       @ (if ok (last_error r) then []
                          else '': '' @ Status_ToString fmt (last_error r))))])
           else if ok st then
             (r\<lparr>state := kIdle, task_id := kInvalidTaskId, controller := Reset (controller r)\<rparr>,
              [SendRpc rpc])
           else
             (r\<lparr>state := kIdle, task_id := kInvalidTaskId\<rparr>,
              [Finished rpc
                 (if IsServiceUnavailable st
                  then STATUS Aborted (''Aborted because of '' @ Status_ToString fmt st)
                  else st)]))"
  using assms
  by (simp add: DoRetry_def compare_exchange_strong_def DoRetry_loop_exit Let_def ok_def
      IsServiceUnavailable_def has_code_def)

lemma DoRetry_Scheduling: "state r = kScheduling \<Longrightarrow> DoRetry fmt now rpc st r = None"
  by (simp add: DoRetry_def compare_exchange_strong_def DoRetry_loop_spins)

lemma DoRetry_task_id:
  "DoRetry fmt now rpc st r = Some (r', cs) \<Longrightarrow> task_id r' = kInvalidTaskId"
  by (cases "state r = kScheduling")
     (auto simp add: DoRetry_Scheduling DoRetry_cases split: if_splits)

text \<open>
  Claim C3, as amended. When \<^verbatim>\<open>DoRetry\<close> is invoked on a Retrier in state \<^verbatim>\<open>kWaiting\<close>
  (so that it takes \<^verbatim>\<open>kRunning\<close>) with an OK scheduled status, and the overall deadline is
  initialized and lies strictly before the current time, it returns, and the only call it
  makes on the command is \<^verbatim>\<open>Finished\<close> with a TimedOut status whose message is
  ``<cmd> passed its deadline <D> (now: <T>)'', followed by ``: <last_error>'' exactly when
  \<^verbatim>\<open>last_error_\<close> is not OK; no attempt is sent. The Retrier ends idle with no task id.
\<close>

theorem DoRetry_deadline_passed:
  assumes "state r = kWaiting" and "ok st"
    and "Initialized (deadline r)" and "ComesBefore (deadline r) now"
  shows "DoRetry fmt now rpc st r =
           Some (r\<lparr>state := kIdle, task_id := kInvalidTaskId\<rparr>,
                 [Finished rpc
                    (STATUS TimedOut
                       (cmd_ToString rpc @ '' passed its deadline ''
                          @ MonoTime_ToString fmt (deadline r) @ '' (now: ''
                          @ MonoTime_ToString fmt now @ '')''
                          @ (if ok (last_error r) then []
                             else '': '' @ Status_ToString fmt (last_error r))))])"
  using assms by (simp add: DoRetry_cases)

theorem DoRetry_deadline_passed_witness:
  "state (r0\<lparr>state := kWaiting, task_id := TaskId 0, last_error := STATUS RemoteError ''busy''\<rparr>)
     = kWaiting
   \<and> ok OK \<and> Initialized (deadline r0) \<and> ComesBefore (deadline r0) 300
   \<and> DoRetry fmt0 300 cmd0 OK
        (r0\<lparr>state := kWaiting, task_id := TaskId 0, last_error := STATUS RemoteError ''busy''\<rparr>) =
      Some (r0\<lparr>last_error := STATUS RemoteError ''busy''\<rparr>,
            [Finished cmd0 (STATUS TimedOut ''cmd passed its deadline 100 (now: 300): busy'')])"
  using DoRetry_deadline_passed
    [of "r0\<lparr>state := kWaiting, task_id := TaskId 0, last_error := STATUS RemoteError ''busy''\<rparr>"
        OK 300 fmt0 cmd0]
  by (simp add: r0_def ok_def Initialized_def ComesBefore_def fmt0_def cmd0_def)

text \<open>
  Claim C3 as stated fails: on a Retrier that \<^verbatim>\<open>Abort\<close> has already moved to
  \<^verbatim>\<open>kFinished\<close>, \<^verbatim>\<open>DoRetry\<close> with an OK status and a passed deadline delivers an Aborted
  status, not a TimedOut one.
\<close>

theorem DoRetry_aborted_after_deadline:
  "ok OK \<and> Initialized (deadline (r0\<lparr>state := kFinished\<rparr>))
   \<and> ComesBefore (deadline (r0\<lparr>state := kFinished\<rparr>)) 300
   \<and> DoRetry fmt0 300 cmd0 OK (r0\<lparr>state := kFinished\<rparr>) =
      Some (r0\<lparr>state := kFinished\<rparr>,
            [Finished cmd0 (STATUS Aborted ''cmd aborted: kFinished'')])"
  by (simp add: DoRetry_cases r0_def ok_def Initialized_def ComesBefore_def fmt0_def cmd0_def)

section \<open>Lemmas on Abort and on sequences of operations\<close>

lemma during_sleep_task_id:
  "during_sleep fmt ev r = Some (r', cs) \<Longrightarrow> task_id r = kInvalidTaskId \<or> ev \<noteq> Quiet
     \<Longrightarrow> task_id r' = kInvalidTaskId"
  by (cases ev) (auto simp add: during_sleep_def dest: DoRetry_task_id)

lemma during_sleep_Finished:
  "during_sleep fmt ev r = Some (r', cs) \<Longrightarrow> state r = kFinished \<Longrightarrow> state r' = kFinished"
  by (cases ev) (auto simp add: during_sleep_def DoRetry_cases)

lemma Abort_cancel_task_id:
  "Abort_cancel fmt sleeps r = Some (r', cs) \<Longrightarrow> task_id r' = kInvalidTaskId"
proof (induction fmt sleeps r arbitrary: r' cs rule: Abort_cancel.induct)
  case (1 fmt sleeps r)
  show ?case
  proof (cases "task_id r = kInvalidTaskId")
    case True
    with "1.prems" show ?thesis by (simp add: Abort_cancel.simps)
  next
    case False
    with "1.prems" obtain ev rest r1 c1 c2 where
      s: "sleeps = ev # rest" and d: "during_sleep fmt ev r = Some (r1, c1)"
      and a: "Abort_cancel fmt rest r1 = Some (r', c2)"
      by (subst (asm) Abort_cancel.simps) (auto split: list.splits option.splits)
    from "1.IH" [OF False s d refl a] show ?thesis .
  qed
qed

lemma Abort_cancel_Finished:
  "Abort_cancel fmt sleeps r = Some (r', cs) \<Longrightarrow> state r = kFinished \<Longrightarrow> state r' = kFinished"
proof (induction fmt sleeps r arbitrary: r' cs rule: Abort_cancel.induct)
  case (1 fmt sleeps r)
  show ?case
  proof (cases "task_id r = kInvalidTaskId")
    case True
    with "1.prems" show ?thesis by (simp add: Abort_cancel.simps)
  next
    case False
    with "1.prems" obtain ev rest r1 c1 c2 where
      s: "sleeps = ev # rest" and d: "during_sleep fmt ev r = Some (r1, c1)"
      and a: "Abort_cancel fmt rest r1 = Some (r', c2)"
      by (subst (asm) Abort_cancel.simps) (auto split: list.splits option.splits)
    from d "1.prems"(2) have "state r1 = kFinished" by (rule during_sleep_Finished)
    then show ?thesis by (rule "1.IH" [OF False s d refl a])
  qed
qed

lemma Abort_park_Finished:
  "Abort_park fmt spurious sleeps e r = Some (r', cs, rest) \<Longrightarrow> state r' = kFinished"
proof (induction sleeps arbitrary: spurious e r r' cs rest)
  case Nil
  from Nil show ?case
    by (subst (asm) Abort_park.simps)
       (auto simp del: Abort_park.simps simp add: compare_exchange_weak_def split: if_splits)
next
  case (Cons ev rest0)
  from Cons.prems show ?case
    by (subst (asm) Abort_park.simps)
       (auto simp del: Abort_park.simps simp add: compare_exchange_weak_def
          split: if_splits option.splits dest: Cons.IH)
qed

lemma RpcRetrier_Abort_result:
  assumes "RpcRetrier_Abort fmt spurious sleeps r = Some (r', cs)"
  shows "state r' = kFinished \<and> task_id r' = kInvalidTaskId"
proof -
  from assms obtain r1 c1 rest c2 where
    p: "Abort_park fmt spurious sleeps kIdle r = Some (r1, c1, rest)"
    and c: "Abort_cancel fmt rest r1 = Some (r', c2)"
    by (auto simp add: RpcRetrier_Abort_def split: option.splits)
  from p have "state r1 = kFinished" by (rule Abort_park_Finished)
  with c show ?thesis by (simp add: Abort_cancel_Finished Abort_cancel_task_id)
qed

lemma DelayedRetry_invariant:
  "DelayedRetry fmt flags jitter rpc why_status strategy (r, m) = Inr (st, r', m')
     \<Longrightarrow> task_id_invariant r \<Longrightarrow> task_id_invariant r'"
  by (auto simp add: DelayedRetry_cases Let_def task_id_invariant_def split: if_splits)

lemma HandleResponse_invariant:
  "HandleResponse fmt flags jitter rpc out_status retry_when_busy (r, m) = Inr (b, st, r', m')
     \<Longrightarrow> task_id_invariant r \<Longrightarrow> task_id_invariant r'"
  by (auto simp add: HandleResponse_def Let_def split: if_splits sum.splits
      dest: DelayedRetry_invariant)

lemma run_op_invariant:
  assumes "run_op fmt flags op (r, m) = Some (Inr (r', m'))" and "task_id_invariant r"
  shows "task_id_invariant r'"
proof (cases op)
  case (Op_HandleResponse jitter rpc out_status retry_when_busy)
  with assms show ?thesis
    by (auto simp add: run_op_def split: sum.splits dest: HandleResponse_invariant)
next
  case (Op_DelayedRetry jitter rpc why_status strategy)
  with assms show ?thesis
    by (auto simp add: run_op_def split: sum.splits dest: DelayedRetry_invariant)
next
  case (Op_DoRetry now rpc st)
  with assms show ?thesis
    by (auto simp add: run_op_def task_id_invariant_def split: option.splits
        dest: DoRetry_task_id)
next
  case (Op_Abort spurious sleeps)
  with assms show ?thesis
    by (auto simp add: run_op_def task_id_invariant_def split: option.splits
        dest: RpcRetrier_Abort_result)
qed

lemma run_ops_invariant:
  "run_ops fmt flags ops (r, m) = Some (Inr (r', m')) \<Longrightarrow> task_id_invariant r
     \<Longrightarrow> task_id_invariant r'"
proof (induction ops arbitrary: r m)
  case Nil
  then show ?case by simp
next
  case (Cons op ops)
  from Cons.prems(1) obtain r1 m1 where
    s: "run_op fmt flags op (r, m) = Some (Inr (r1, m1))"
    and t: "run_ops fmt flags ops (r1, m1) = Some (Inr (r', m'))"
    by (auto split: option.splits sum.splits)
  from s Cons.prems(2) have "task_id_invariant r1" by (rule run_op_invariant)
  with t show ?case by (rule Cons.IH)
qed

text \<open>
  Claim C9. Start from a Retrier that satisfies the invariant (a new one is idle with no
  task id) and run any sequence of \<^verbatim>\<open>HandleResponse\<close>, \<^verbatim>\<open>DelayedRetry\<close>, \<^verbatim>\<open>DoRetry\<close> and
  \<^verbatim>\<open>Abort\<close>, each to its return: whenever the state is then \<^verbatim>\<open>kIdle\<close> or \<^verbatim>\<open>kFinished\<close>,
  the task id is \<^verbatim>\<open>kInvalidTaskId\<close>. Every invocation of \<^verbatim>\<open>DoRetry\<close> that returns leaves
  the task id invalid, and \<^verbatim>\<open>DoRetry\<close> returns unless it finds the state \<^verbatim>\<open>kScheduling\<close>.
  The destructor writes its DFATAL message exactly when the task id is not invalid or the
  state is neither \<^verbatim>\<open>kIdle\<close> nor \<^verbatim>\<open>kFinished\<close>.
\<close>

theorem quiescent_task_id_invalid:
  "(task_id_invariant r \<and> run_ops fmt flags ops (r, m) = Some (Inr (r', m'))
      \<longrightarrow> task_id_invariant r')
   \<and> (DoRetry fmt now rpc st r1 = Some (r1', cs) \<longrightarrow> task_id r1' = kInvalidTaskId)
   \<and> (state r1 \<noteq> kScheduling \<longrightarrow> (\<exists>r1' cs. DoRetry fmt now rpc st r1 = Some (r1', cs)))
   \<and> (RpcRetrier_destroy fmt r2 \<noteq> [] \<longleftrightarrow>
        task_id r2 \<noteq> kInvalidTaskId \<or> (state r2 \<noteq> kIdle \<and> state r2 \<noteq> kFinished))"
  by (auto simp add: run_ops_invariant DoRetry_task_id DoRetry_cases RpcRetrier_destroy_def)

theorem quiescent_task_id_invalid_witness:
  "task_id_invariant r0
   \<and> run_ops fmt0 (default_FLAGS 1) ops0 (r0, m0) =
       Some (Inr (r0\<lparr>attempt_num := 2, last_error := STATUS RemoteError ''busy'',
                     state := kFinished\<rparr>,
                  m0\<lparr>next_task_id := 1, scheduled_tasks := [(0, cmd0, 259)]\<rparr>))
   \<and> task_id (r0\<lparr>attempt_num := 2, last_error := STATUS RemoteError ''busy'',
                  state := kFinished\<rparr>) = kInvalidTaskId
   \<and> DoRetry fmt0 300 cmd0 (STATUS Aborted ''Task aborted'')
        (r0\<lparr>state := kWaiting, task_id := TaskId 0\<rparr>) =
       Some (r0, [Finished cmd0 (STATUS Aborted ''Task aborted'')])
   \<and> task_id r0 = kInvalidTaskId
   \<and> RpcRetrier_destroy fmt0 (r0\<lparr>state := kWaiting, task_id := TaskId 0\<rparr>) =
       [DFATAL ''Destroying RpcRetrier in invalid state: { task_id: task state: kWaiting deadline: 100 }'']"
proof -
  let ?R = "r0\<lparr>attempt_num := 2, last_error := STATUS RemoteError ''busy'', state := kFinished\<rparr>"
  let ?M = "m0\<lparr>next_task_id := 1, scheduled_tasks := [(0, cmd0, 259)]\<rparr>"
  let ?W = "r0\<lparr>state := kWaiting, task_id := TaskId 0\<rparr>"
  have inv0: "task_id_invariant r0" by (simp add: task_id_invariant_def r0_def)
  have run: "run_ops fmt0 (default_FLAGS 1) ops0 (r0, m0) = Some (Inr (?R, ?M))"
    by (simp add: ops0_def run_op_def DelayedRetry_cases RpcRetrier_Abort_def Abort_park.simps
        Abort_cancel.simps during_sleep_def DoRetry_cases compare_exchange_weak_def Let_def
        r0_def m0_def ok_def num_ms_def shift_left_1_def std_min_def default_FLAGS_def
        word_sless_alt IsServiceUnavailable_def has_code_def)
  have fire: "DoRetry fmt0 300 cmd0 (STATUS Aborted ''Task aborted'') ?W =
       Some (r0, [Finished cmd0 (STATUS Aborted ''Task aborted'')])"
    by (simp add: DoRetry_cases r0_def ok_def IsServiceUnavailable_def has_code_def)
  have dtor: "RpcRetrier_destroy fmt0 ?W =
       [DFATAL ''Destroying RpcRetrier in invalid state: { task_id: task state: kWaiting deadline: 100 }'']"
    by (simp add: RpcRetrier_destroy_def RpcRetrier_ToString_def r0_def fmt0_def)
  from quiescent_task_id_invalid
    [of r0 fmt0 "default_FLAGS 1" ops0 m0 ?R ?M 300 cmd0 "STATUS Aborted ''Task aborted''" ?W
        r0 "[Finished cmd0 (STATUS Aborted ''Task aborted'')]" ?W]
    inv0 run fire
  have "task_id_invariant ?R" and "task_id r0 = kInvalidTaskId" by blast+
  then have "task_id ?R = kInvalidTaskId" by (simp add: task_id_invariant_def)
  with inv0 run fire dtor \<open>task_id r0 = kInvalidTaskId\<close> show ?thesis by simp
qed

section \<open>Lemmas on Rpcs\<close>

lemma abort_calls_Some:
  "abort_calls extra (map Some cmds) dl =
     Inr (fold (\<lambda>c d. max d (cmd_deadline c + extra)) cmds dl, map Abort cmds)"
  by (induction cmds arbitrary: dl) simp_all

lemma Max_insert_max:
  fixes x y :: int
  assumes "finite A"
  shows "Max (insert (max x y) A) = Max (insert x (insert y A))"
proof (cases "A = {}")
  case True
  then show ?thesis by simp
next
  case False
  with assms show ?thesis by (simp add: max.assoc)
qed

lemma fold_max_Max:
  fixes dl :: int
  shows "fold (\<lambda>c d. max d (f c)) cmds dl = Max (insert dl (f ` set cmds))"
proof (induction cmds arbitrary: dl)
  case Nil
  show ?case by simp
next
  case (Cons c cmds)
  have "fold (\<lambda>c d. max d (f c)) (c # cmds) dl = Max (insert (max dl (f c)) (f ` set cmds))"
    by (simp add: Cons.IH)
  also have "\<dots> = Max (insert dl (insert (f c) (f ` set cmds)))"
    by (rule Max_insert_max) simp
  finally show ?case by simp
qed

lemma abort_calls_None:
  "None \<in> set cs \<Longrightarrow> abort_calls extra cs dl = Inl (CHECK_failed ''call'')"
  by (induction cs arbitrary: dl) (auto split: option.splits sum.splits)

lemma abort_calls_Inl:
  "abort_calls extra cs dl = Inl f \<Longrightarrow> None \<in> set cs"
  by (induction cs arbitrary: dl) (auto split: option.splits sum.splits)

lemma no_null_calls:
  assumes "None \<notin> snd ` set (calls rs)"
  shows "map snd (calls rs) = map Some (live_commands rs)"
proof -
  have "None \<notin> snd ` set xs \<Longrightarrow>
        map snd xs = map Some (concat (map (\<lambda>(k, c). case c of None \<Rightarrow> [] | Some cmd \<Rightarrow> [cmd]) xs))"
    for xs :: "(nat \<times> RpcCommand option) list"
    by (induction xs) (auto split: option.splits)
  with assms show ?thesis by (simp add: live_commands_def)
qed

lemma DoRequestAbortAll_first:
  assumes "\<not> shutdown rs" and "None \<notin> snd ` set (calls rs)"
  shows "DoRequestAbortAll flags now req rs =
           Inr (drain_deadline flags now (live_commands rs), rs\<lparr>shutdown := req\<rparr>,
                map Abort (live_commands rs))"
  using assms
  by (simp add: DoRequestAbortAll_def no_null_calls abort_calls_Some fold_max_Max
      drain_deadline_def)

lemma shutdown_fold_erase: "shutdown (fold erase hs rs) = shutdown rs"
  by (induction hs arbitrary: rs) (auto simp add: erase_def split: Handle.splits)

lemma Shutdown_wait_shutdown:
  "Shutdown_wait dl ws rs = Some rs' \<Longrightarrow> shutdown rs' = shutdown rs"
  by (induction dl ws rs rule: Shutdown_wait.induct)
     (auto simp add: Let_def shutdown_fold_erase split: if_splits)

lemma Shutdown_wait_stops:
  "Shutdown_wait dl ws rs = Some rs' \<Longrightarrow> calls rs' = [] \<or> (\<exists>w \<in> set ws. dl \<le> woke_at w)"
  by (induction dl ws rs rule: Shutdown_wait.induct)
     (auto simp add: Let_def wait_until_def split: if_splits)

lemma Shutdown_wait_returns:
  "\<exists>w \<in> set ws. dl \<le> woke_at w \<Longrightarrow> \<exists>rs'. Shutdown_wait dl ws rs = Some rs'"
proof (induction ws arbitrary: rs)
  case Nil
  then show ?case by simp
next
  case (Cons w ws)
  show ?case
  proof (cases "calls rs = [] \<or> dl \<le> woke_at w")
    case True
    then show ?thesis by (auto simp add: Let_def wait_until_def)
  next
    case False
    with Cons.prems have "\<exists>w \<in> set ws. dl \<le> woke_at w" by auto
    from Cons.IH [OF this, of "fold erase (unregistered w) rs"] False
    show ?thesis by (auto simp add: Let_def wait_until_def)
  qed
qed

lemma wait_over_0: "wait_over dl ws rs 0 = (calls rs = [])"
  by (simp add: wait_over_def after_wakeups_def)

lemma after_wakeups_Suc:
  "after_wakeups (Suc k) (w # ws) rs = after_wakeups k ws (fold erase (unregistered w) rs)"
  by (simp add: after_wakeups_def)

lemma wait_over_Suc:
  "wait_over dl (w # ws) rs (Suc k) =
     (if k = 0 then calls (fold erase (unregistered w) rs) = [] \<or> dl \<le> woke_at w
      else wait_over dl ws (fold erase (unregistered w) rs) k)"
  by (cases k) (simp_all add: wait_over_def after_wakeups_def)

lemma wait_over_Suc_no_timeout:
  "woke_at w < dl \<Longrightarrow>
     wait_over dl (w # ws) rs (Suc k) = wait_over dl ws (fold erase (unregistered w) rs) k"
  by (cases k) (auto simp add: wait_over_Suc wait_over_0)

lemma Shutdown_wait_first:
  "k \<le> length ws \<Longrightarrow> wait_over dl ws rs k \<Longrightarrow> \<forall>j<k. \<not> wait_over dl ws rs j
     \<Longrightarrow> Shutdown_wait dl ws rs = Some (after_wakeups k ws rs)"
proof (induction ws arbitrary: rs k)
  case Nil
  then show ?case by (simp add: wait_over_0 after_wakeups_def)
next
  case (Cons w ws)
  show ?case
  proof (cases k)
    case 0
    with Cons.prems show ?thesis by (simp add: wait_over_0 after_wakeups_def)
  next
    case (Suc k')
    let ?rs = "fold erase (unregistered w) rs"
    from Cons.prems(3) Suc have ne: "calls rs \<noteq> []"
      by (auto simp add: wait_over_0)
    show ?thesis
    proof (cases "woke_at w < dl")
      case False
      then have "wait_over dl (w # ws) rs (Suc 0)" by (simp add: wait_over_Suc)
      with Cons.prems(3) Suc have "k' = 0" by (cases k') auto
      with Suc ne False show ?thesis
        by (simp add: wait_until_def after_wakeups_def)
    next
      case True
      from Cons.prems Suc True have a: "k' \<le> length ws" "wait_over dl ws ?rs k'"
        by (simp_all add: wait_over_Suc_no_timeout)
      have b: "\<forall>j<k'. \<not> wait_over dl ws ?rs j"
      proof (intro allI impI)
        fix j assume "j < k'"
        with Cons.prems(3) Suc have "\<not> wait_over dl (w # ws) rs (Suc j)" by simp
        with True show "\<not> wait_over dl ws ?rs j" by (simp add: wait_over_Suc_no_timeout)
      qed
      from Cons.IH [OF a b] Suc ne True show ?thesis
        by (simp add: wait_until_def after_wakeups_Suc)
    qed
  qed
qed

lemma Shutdown_wait_never:
  "\<forall>k \<le> length ws. \<not> wait_over dl ws rs k \<Longrightarrow> Shutdown_wait dl ws rs = None"
proof (induction ws arbitrary: rs)
  case Nil
  then show ?case by (simp add: wait_over_0)
next
  case (Cons w ws)
  let ?rs = "fold erase (unregistered w) rs"
  from Cons.prems have ne: "calls rs \<noteq> []" by (auto simp add: wait_over_0)
  from Cons.prems have "\<not> wait_over dl (w # ws) rs (Suc 0)" by auto
  then have t: "woke_at w < dl" by (simp add: wait_over_Suc)
  have "\<forall>k \<le> length ws. \<not> wait_over dl ws ?rs k"
  proof (intro allI impI)
    fix k assume "k \<le> length ws"
    with Cons.prems have "\<not> wait_over dl (w # ws) rs (Suc k)" by simp
    with t show "\<not> wait_over dl ws ?rs k" by (simp add: wait_over_Suc_no_timeout)
  qed
  from Cons.IH [OF this] ne t show ?case by (simp add: wait_until_def)
qed

lemma map_of_fresh_node:
  assumes "nodes_fresh rs"
  shows "map_of (calls rs @ [(next_node rs, c)]) (next_node rs) = Some c"
proof -
  have "next_node rs \<notin> fst ` set (calls rs)"
    using assms by (auto simp add: nodes_fresh_def list_all_iff)
  then have "map_of (calls rs) (next_node rs) = None"
    by (simp add: map_of_eq_None_iff)
  then show ?thesis by (simp add: map_add_def)
qed

section \<open>Claims on the registry\<close>

text \<open>
  Claim C7, as amended. On a registry that is not yet shut down and whose entries are all
  non-null, \<^verbatim>\<open>DoRequestAbortAll(kTrue)\<close> sets the shutdown flag, calls \<^verbatim>\<open>Abort\<close> on every
  registered command, in order, and returns the drain deadline
  \<open>max(now + rpcs_shutdown_timeout_ms, max over the calls of (deadline +
  rpcs_shutdown_extra_delay_ms))\<close>. \<^verbatim>\<open>Shutdown\<close> then waits exactly until \<^verbatim>\<open>calls_\<close> is
  empty or a wake-up reaches that deadline: at the first wake-up count \<open>k\<close> at which the
  wait is over it returns, normally with the drained registry when \<^verbatim>\<open>calls_\<close> is empty
  and by the failed \<^verbatim>\<open>CHECK(calls_.empty())\<close> otherwise; while the wait is over at no
  wake-up it stays blocked. Hence a normal return has \<^verbatim>\<open>calls_\<close> empty and the flag
  set, a failure is that \<^verbatim>\<open>CHECK\<close> after a wake-up at or after the deadline, and
  \<^verbatim>\<open>Shutdown\<close> returns once a wake-up reaches the deadline.
\<close>

theorem Shutdown_drain:
  assumes "\<not> shutdown rs" and "None \<notin> snd ` set (calls rs)"
  shows "(let dl = drain_deadline flags now (live_commands rs);
              rs1 = fold erase meanwhile (rs\<lparr>shutdown := True\<rparr>)
          in DoRequestAbortAll flags now True rs =
               Inr (dl, rs\<lparr>shutdown := True\<rparr>, map Abort (live_commands rs))
             \<and> (\<forall>k. k \<le> length wakeups \<and> wait_over dl wakeups rs1 k
                      \<and> (\<forall>j<k. \<not> wait_over dl wakeups rs1 j) \<longrightarrow>
                    Shutdown flags now meanwhile wakeups rs =
                      Some (if calls (after_wakeups k wakeups rs1) = []
                            then Inr (after_wakeups k wakeups rs1, map Abort (live_commands rs))
                            else Inl (CHECK_failed ''calls_.empty()'')))
             \<and> ((\<forall>k \<le> length wakeups. \<not> wait_over dl wakeups rs1 k) \<longrightarrow>
                    Shutdown flags now meanwhile wakeups rs = None)
             \<and> (\<forall>rs' cs. Shutdown flags now meanwhile wakeups rs = Some (Inr (rs', cs)) \<longrightarrow>
                    calls rs' = [] \<and> shutdown rs' \<and> cs = map Abort (live_commands rs))
             \<and> (\<forall>f. Shutdown flags now meanwhile wakeups rs = Some (Inl f) \<longrightarrow>
                    f = CHECK_failed ''calls_.empty()''
                    \<and> (\<exists>w \<in> set wakeups. dl \<le> woke_at w))
             \<and> ((\<exists>w \<in> set wakeups. dl \<le> woke_at w) \<longrightarrow>
                    Shutdown flags now meanwhile wakeups rs \<noteq> None))"
proof -
  let ?dl = "drain_deadline flags now (live_commands rs)"
  let ?rs1 = "fold erase meanwhile (rs\<lparr>shutdown := True\<rparr>)"
  have d: "DoRequestAbortAll flags now True rs =
             Inr (?dl, rs\<lparr>shutdown := True\<rparr>, map Abort (live_commands rs))"
    using assms by (rule DoRequestAbortAll_first)
  have s: "Shutdown flags now meanwhile wakeups rs =
             (case Shutdown_wait ?dl wakeups ?rs1 of
                None \<Rightarrow> None
              | Some rs2 \<Rightarrow>
                  if calls rs2 = [] then Some (Inr (rs2, map Abort (live_commands rs)))
                  else Some (Inl (CHECK_failed ''calls_.empty()'')))"
    by (simp add: Shutdown_def d)
  have first: "Shutdown flags now meanwhile wakeups rs =
                 Some (if calls (after_wakeups k wakeups ?rs1) = []
                       then Inr (after_wakeups k wakeups ?rs1, map Abort (live_commands rs))
                       else Inl (CHECK_failed ''calls_.empty()''))"
    if "k \<le> length wakeups \<and> wait_over ?dl wakeups ?rs1 k
          \<and> (\<forall>j<k. \<not> wait_over ?dl wakeups ?rs1 j)" for k
  proof -
    from that have "Shutdown_wait ?dl wakeups ?rs1 = Some (after_wakeups k wakeups ?rs1)"
      by (intro Shutdown_wait_first) simp_all
    with s show ?thesis by simp
  qed
  have never: "Shutdown flags now meanwhile wakeups rs = None"
    if "\<forall>k \<le> length wakeups. \<not> wait_over ?dl wakeups ?rs1 k"
    using Shutdown_wait_never [OF that] s by simp
  have a: "calls rs' = [] \<and> shutdown rs' \<and> cs = map Abort (live_commands rs)"
    if "Shutdown flags now meanwhile wakeups rs = Some (Inr (rs', cs))" for rs' cs
  proof -
    from that s obtain w: "Shutdown_wait ?dl wakeups ?rs1 = Some rs'" and "calls rs' = []"
      and "cs = map Abort (live_commands rs)"
      by (auto split: option.splits if_splits)
    moreover from w have "shutdown rs'"
      by (simp add: Shutdown_wait_shutdown shutdown_fold_erase)
    ultimately show ?thesis by simp
  qed
  have b: "f = CHECK_failed ''calls_.empty()'' \<and> (\<exists>w \<in> set wakeups. ?dl \<le> woke_at w)"
    if "Shutdown flags now meanwhile wakeups rs = Some (Inl f)" for f
  proof -
    from that s obtain rs2 where w: "Shutdown_wait ?dl wakeups ?rs1 = Some rs2"
      and "calls rs2 \<noteq> []" and "f = CHECK_failed ''calls_.empty()''"
      by (auto split: option.splits if_splits)
    with Shutdown_wait_stops [OF w] show ?thesis by simp
  qed
  have c: "Shutdown flags now meanwhile wakeups rs \<noteq> None"
    if "\<exists>w \<in> set wakeups. ?dl \<le> woke_at w"
    using Shutdown_wait_returns [OF that, of ?rs1] s by auto
  from d first never a b c show ?thesis unfolding Let_def by blast
qed

theorem Shutdown_drain_witness:
  "\<not> shutdown rs4 \<and> None \<notin> snd ` set (calls rs4)
   \<and> DoRequestAbortAll flags4 1000 True rs4 =
       Inr (1310, rs4\<lparr>shutdown := True\<rparr>, [Abort cmdA, Abort cmdB])
   \<and> wait_over 1310
        [\<lparr>unregistered = [Node 0], woke_at = 1200\<rparr>, \<lparr>unregistered = [Node 1], woke_at = 1305\<rparr>]
        (rs4\<lparr>shutdown := True\<rparr>) 2
   \<and> Shutdown flags4 1000 []
        [\<lparr>unregistered = [Node 0], woke_at = 1200\<rparr>, \<lparr>unregistered = [Node 1], woke_at = 1305\<rparr>]
        rs4 =
       Some (Inr (\<lparr>calls = [], shutdown = True, next_node = 2\<rparr>, [Abort cmdA, Abort cmdB]))"
proof -
  let ?ws = "[\<lparr>unregistered = [Node 0], woke_at = 1200\<rparr>,
              \<lparr>unregistered = [Node 1], woke_at = 1305\<rparr>]"
  let ?rs1 = "rs4\<lparr>shutdown := True\<rparr>"
  have h: "\<not> shutdown rs4" "None \<notin> snd ` set (calls rs4)"
    by (simp_all add: rs4_def)
  have l: "live_commands rs4 = [cmdA, cmdB]"
    by (simp add: live_commands_def rs4_def)
  have dl: "drain_deadline flags4 1000 [cmdA, cmdB] = 1310"
    by (simp add: drain_deadline_def flags4_def cmdA_def cmdB_def)
  have a2: "after_wakeups 2 ?ws ?rs1 = \<lparr>calls = [], shutdown = True, next_node = 2\<rparr>"
    by (simp add: after_wakeups_def erase_def rs4_def)
  have o2: "wait_over 1310 ?ws ?rs1 2"
    by (simp add: wait_over_def after_wakeups_def erase_def rs4_def)
  have n0: "\<not> wait_over 1310 ?ws ?rs1 0"
    by (simp add: wait_over_def after_wakeups_def rs4_def)
  have n1: "\<not> wait_over 1310 ?ws ?rs1 1"
    by (simp add: wait_over_def after_wakeups_def erase_def rs4_def)
  have n: "\<forall>j<2. \<not> wait_over 1310 ?ws ?rs1 j"
  proof (intro allI impI)
    fix j :: nat assume "j < 2"
    then have "j = 0 \<or> j = 1" by auto
    with n0 n1 show "\<not> wait_over 1310 ?ws ?rs1 j" by auto
  qed
  have e: "fold erase [] ?rs1 = ?rs1" by simp
  have len: "2 \<le> length ?ws" by simp
  note t = Shutdown_drain [OF h, of flags4 1000 "[]" ?ws, unfolded Let_def l dl e]
  have d0: "DoRequestAbortAll flags4 1000 True rs4 =
       Inr (1310, rs4\<lparr>shutdown := True\<rparr>, map Abort [cmdA, cmdB])"
    by (rule t [THEN conjunct1])
  have first: "\<forall>k. k \<le> length ?ws \<and> wait_over 1310 ?ws ?rs1 k
                      \<and> (\<forall>j<k. \<not> wait_over 1310 ?ws ?rs1 j) \<longrightarrow>
                    Shutdown flags4 1000 [] ?ws rs4 =
                      Some (if calls (after_wakeups k ?ws ?rs1) = []
                            then Inr (after_wakeups k ?ws ?rs1, map Abort [cmdA, cmdB])
                            else Inl (CHECK_failed ''calls_.empty()''))"
    by (rule t [THEN conjunct2, THEN conjunct1])
  from d0 have d: "DoRequestAbortAll flags4 1000 True rs4 =
       Inr (1310, rs4\<lparr>shutdown := True\<rparr>, [Abort cmdA, Abort cmdB])"
    by simp
  from len o2 n have "Shutdown flags4 1000 [] ?ws rs4 =
       Some (if calls (after_wakeups 2 ?ws ?rs1) = []
             then Inr (after_wakeups 2 ?ws ?rs1, map Abort [cmdA, cmdB])
             else Inl (CHECK_failed ''calls_.empty()''))"
    by (intro first [rule_format] conjI)
  then have "Shutdown flags4 1000 [] ?ws rs4 =
       Some (Inr (\<lparr>calls = [], shutdown = True, next_node = 2\<rparr>, [Abort cmdA, Abort cmdB]))"
    unfolding a2 by simp
  with h d o2 show ?thesis by simp
qed

text \<open>
  Claim C7 as stated fails on the deadline: in the shutdown scenario the code returns
  \<open>1310 = max(1000 + 50, 1100 + 10, 1300 + 10)\<close>, not the sum
  \<open>now + rpcs_shutdown_timeout_ms + max(per-call (deadline + rpcs_shutdown_extra_delay_ms))\<close>.
\<close>

theorem Shutdown_deadline_is_max:
  "DoRequestAbortAll flags4 1000 True rs4 =
     Inr (1310, rs4\<lparr>shutdown := True\<rparr>, [Abort cmdA, Abort cmdB])
   \<and> (1310 :: int) \<noteq>
       1000 + rpcs_shutdown_timeout_ms flags4
         + max (cmd_deadline cmdA + rpcs_shutdown_extra_delay_ms flags4)
               (cmd_deadline cmdB + rpcs_shutdown_extra_delay_ms flags4)"
  by (simp add: DoRequestAbortAll_def rs4_def flags4_def cmdA_def cmdB_def)

text \<open>
  Claim C8. After the shutdown flag is set, \<^verbatim>\<open>Register(c)\<close> calls \<^verbatim>\<open>c.Abort()\<close> once and
  nothing else, returns \<^verbatim>\<open>InvalidHandle()\<close> and leaves the registry as it was. Before
  shutdown it makes no call, appends \<open>c\<close> as the last element of \<^verbatim>\<open>calls_\<close> and returns a
  valid handle, the node of that element: dereferencing it yields \<open>c\<close>.
\<close>

theorem Register_contract:
  "(shutdown rs \<longrightarrow> Register c rs = (InvalidHandle rs, rs, [Abort c]))
   \<and> (\<not> shutdown rs \<longrightarrow>
        (\<exists>h rs'. Register c rs = (Node h, rs', [])
           \<and> calls rs' = calls rs @ [(h, Some c)]
           \<and> shutdown rs' = shutdown rs
           \<and> Node h \<noteq> InvalidHandle rs'
           \<and> (nodes_fresh rs \<longrightarrow> nodes_fresh rs' \<and> deref rs' (Node h) = Some c)))"
proof (cases "shutdown rs")
  case True
  then show ?thesis by (simp add: Register_def)
next
  case False
  let ?rs' = "rs\<lparr>calls := calls rs @ [(next_node rs, Some c)], next_node := Suc (next_node rs)\<rparr>"
  have r: "Register c rs = (Node (next_node rs), ?rs', [])"
    using False by (simp add: Register_def)
  have f: "nodes_fresh ?rs' \<and> deref ?rs' (Node (next_node rs)) = Some c" if "nodes_fresh rs"
  proof
    show "nodes_fresh ?rs'"
      using that by (auto simp add: nodes_fresh_def list_all_iff)
    show "deref ?rs' (Node (next_node rs)) = Some c"
      using map_of_fresh_node [OF that, of "Some c"] by (simp add: deref_def)
  qed
  from False r f show ?thesis by (simp add: InvalidHandle_def)
qed

theorem Register_contract_witness:
  "Register cmd0 rs4 =
     (Node 2, rs4\<lparr>calls := [(0, Some cmdA), (1, Some cmdB), (2, Some cmd0)], next_node := 3\<rparr>, [])
   \<and> deref (rs4\<lparr>calls := [(0, Some cmdA), (1, Some cmdB), (2, Some cmd0)], next_node := 3\<rparr>)
        (Node 2) = Some cmd0
   \<and> Register cmd0 (rs4\<lparr>shutdown := True\<rparr>) =
       (InvalidHandle (rs4\<lparr>shutdown := True\<rparr>), rs4\<lparr>shutdown := True\<rparr>, [Abort cmd0])"
proof -
  have a: "Register cmd0 (rs4\<lparr>shutdown := True\<rparr>) =
       (InvalidHandle (rs4\<lparr>shutdown := True\<rparr>), rs4\<lparr>shutdown := True\<rparr>, [Abort cmd0])"
    using Register_contract [of "rs4\<lparr>shutdown := True\<rparr>" cmd0] by simp
  have n: "\<not> shutdown rs4" "nodes_fresh rs4" "next_node rs4 = 2"
    "calls rs4 = [(0, Some cmdA), (1, Some cmdB)]"
    by (simp_all add: rs4_def nodes_fresh_def)
  from Register_contract [of rs4 cmd0] n(1,2)
  obtain h rs' where r: "Register cmd0 rs4 = (Node h, rs', [])"
    and d: "deref rs' (Node h) = Some cmd0"
    by auto
  have e: "Register cmd0 rs4 =
     (Node 2, rs4\<lparr>calls := [(0, Some cmdA), (1, Some cmdB), (2, Some cmd0)], next_node := 3\<rparr>, [])"
    using n by (simp add: Register_def)
  with r d a show ?thesis by simp
qed

text \<open>
  Claim C10. On a registry that is not shut down, \<^verbatim>\<open>Prepare\<close> appends a null entry, and
  \<^verbatim>\<open>DoRequestAbortAll\<close> (for \<^verbatim>\<open>RequestAbortAll\<close> as for \<^verbatim>\<open>Shutdown\<close>) copies the calls and
  fails its \<^verbatim>\<open>CHECK(call)\<close> exactly when an entry is null. So an abort-all or a shutdown
  that runs while a placeholder has not been overwritten ends in that \<^verbatim>\<open>CHECK\<close>.
\<close>

theorem placeholder_abort_all:
  assumes "\<not> shutdown rs"
  shows "(\<exists>h rs'. Prepare rs = (Node h, rs')
            \<and> calls rs' = calls rs @ [(h, None)]
            \<and> DoRequestAbortAll flags now request_shutdown rs' = Inl (CHECK_failed ''call'')
            \<and> Shutdown flags now meanwhile wakeups rs' = Some (Inl (CHECK_failed ''call'')))
         \<and> (DoRequestAbortAll flags now request_shutdown rs = Inl (CHECK_failed ''call'')
              \<longleftrightarrow> None \<in> snd ` set (calls rs))
         \<and> (\<forall>f. DoRequestAbortAll flags now request_shutdown rs = Inl f
                \<longrightarrow> f = CHECK_failed ''call'')"
proof -
  have iff: "DoRequestAbortAll flags now req rs1 = Inl f \<longleftrightarrow>
               None \<in> snd ` set (calls rs1) \<and> f = CHECK_failed ''call''"
    if "\<not> shutdown rs1" for req rs1 f
  proof
    assume "DoRequestAbortAll flags now req rs1 = Inl f"
    with that have a: "abort_calls (rpcs_shutdown_extra_delay_ms flags) (map snd (calls rs1))
               (now + rpcs_shutdown_timeout_ms flags) = Inl f"
      by (auto simp add: DoRequestAbortAll_def split: sum.splits prod.splits)
    then have n: "None \<in> set (map snd (calls rs1))" by (rule abort_calls_Inl)
    from abort_calls_None [OF n] a have "f = CHECK_failed ''call''" by simp
    with n show "None \<in> snd ` set (calls rs1) \<and> f = CHECK_failed ''call''" by simp
  next
    assume "None \<in> snd ` set (calls rs1) \<and> f = CHECK_failed ''call''"
    then have "None \<in> set (map snd (calls rs1))" and f: "f = CHECK_failed ''call''" by simp_all
    from abort_calls_None [OF this(1)] that f
    show "DoRequestAbortAll flags now req rs1 = Inl f"
      by (simp add: DoRequestAbortAll_def)
  qed
  let ?rs' = "rs\<lparr>calls := calls rs @ [(next_node rs, None)], next_node := Suc (next_node rs)\<rparr>"
  have p: "Prepare rs = (Node (next_node rs), ?rs')"
    using assms by (simp add: Prepare_def)
  have n: "\<not> shutdown ?rs'" "None \<in> snd ` set (calls ?rs')"
    using assms by (simp_all add: image_iff)
  have d: "DoRequestAbortAll flags now req ?rs' = Inl (CHECK_failed ''call'')" for req
    using iff [OF n(1)] n(2) by simp
  have s: "Shutdown flags now meanwhile wakeups ?rs' = Some (Inl (CHECK_failed ''call''))"
    by (simp add: Shutdown_def d)
  from p d s iff [OF assms] show ?thesis by auto
qed

theorem placeholder_abort_all_witness:
  "\<not> shutdown rs4
   \<and> Prepare rs4 =
       (Node 2, rs4\<lparr>calls := [(0, Some cmdA), (1, Some cmdB), (2, None)], next_node := 3\<rparr>)
   \<and> DoRequestAbortAll flags4 1000 False
        (rs4\<lparr>calls := [(0, Some cmdA), (1, Some cmdB), (2, None)], next_node := 3\<rparr>) =
       Inl (CHECK_failed ''call'')"
proof -
  have h: "\<not> shutdown rs4" by (simp add: rs4_def)
  have p: "Prepare rs4 =
       (Node 2, rs4\<lparr>calls := [(0, Some cmdA), (1, Some cmdB), (2, None)], next_node := 3\<rparr>)"
    by (simp add: Prepare_def rs4_def)
  from placeholder_abort_all [OF h, of flags4 1000 False] p
  have "DoRequestAbortAll flags4 1000 False
        (rs4\<lparr>calls := [(0, Some cmdA), (1, Some cmdB), (2, None)], next_node := 3\<rparr>) =
       Inl (CHECK_failed ''call'')"
    by auto
  with h p show ?thesis by simp
qed

end
